theory Spec2Isabelle
  imports Complex_Main "HOL-Library.Word" "HOL-Library.Monad_Syntax"
begin

unbundle bit_operations_syntax

section \<open>C values: pointers, arrays, the type int\<close>

text \<open>
  The bridging layer (Sources/CRecast/Bridging.cpp) is C-style code over the Recast and
  Detour libraries. A function of the model returns an \<open>option\<close>: \<open>None\<close> stands for
  undefined behaviour of the C code (a null pointer dereferenced, an array accessed out
  of range, a signed overflow of \<open>int\<close>), \<open>Some v\<close> for a normal return of \<open>v\<close>.

  A pointer is \<open>Null\<close> or \<open>Ptr v\<close>, where \<open>v\<close> is the object pointed to.
\<close>

datatype 'a ptr = Null | Ptr 'a

fun deref :: "'a ptr \<Rightarrow> 'a option" where
  "deref Null = None"
| "deref (Ptr v) = Some v"

text \<open>An array is a list; reading and writing outside of it is undefined.\<close>

definition rd :: "'a list \<Rightarrow> int \<Rightarrow> 'a option" where
  "rd xs i = (if 0 \<le> i \<and> i < int (length xs) then Some (xs ! nat i) else None)"

definition wr :: "'a list \<Rightarrow> int \<Rightarrow> 'a \<Rightarrow> 'a list option" where
  "wr xs i v = (if 0 \<le> i \<and> i < int (length xs) then Some (xs[nat i := v]) else None)"

text \<open>The C type \<open>int\<close> has 32 bits; an arithmetic result outside of it is undefined.\<close>

definition INT_MAX :: int where
  "INT_MAX = 2147483647"

definition INT_MIN :: int where
  "INT_MIN = - 2147483648"

definition ck :: "int \<Rightarrow> int option" where
  "ck n = (if INT_MIN \<le> n \<and> n \<le> INT_MAX then Some n else None)"

text \<open>
  The type \<open>float\<close> is a type parameter \<open>'f\<close>, and the floating-point operations the code
  uses are the fields of a record: the theorems hold for every interpretation of them,
  IEEE 754 single precision among them.
\<close>

record 'f fops =
  fadd :: "'f \<Rightarrow> 'f \<Rightarrow> 'f"   \<comment> \<open>\<open>a + b\<close> on float\<close>
  fmul :: "'f \<Rightarrow> 'f \<Rightarrow> 'f"   \<comment> \<open>\<open>a * b\<close> on float\<close>
  fint :: "int \<Rightarrow> 'f"               \<comment> \<open>the conversion of an int to float\<close>
  feps :: "'f"                              \<comment> \<open>the literal \<open>0.1f\<close>\<close>

type_synonym 'f vec3 = "'f \<times> 'f \<times> 'f"

section \<open>The data of Bridging.h\<close>

datatype BCodeStatus =
    BCODE_OK
  | BCODE_ERR_MEMORY
  | BCODE_ERR_RASTERIZE
  | BCODE_ERR_BUILD_COMPACT_HEIGHTFIELD
  | BCODE_ERR_BUILD_LAYER_REGIONS
  | BCODE_ERR_BUILD_REGIONS_MONOTONE
  | BCODE_ERR_BUILD_DISTANCE_FIELD
  | BCODE_ERR_BUILD_REGIONS
  | BCODE_ERR_ALLOC_CONTOUR
  | BCODE_ERR_BUILD_CONTOUR
  | BCODE_ERR_UNKNOWN
  | BCODE_ERR_ALLOC_POLYMESH
  | BCODE_ERR_BUILD_POLY_MESH
  | BCODE_ERR_ALLOC_DETAIL_POLY_MESH
  | BCODE_ERR_BUILD_DETAIL_POLY_MESH

datatype BDetourStatus =
    BD_OK
  | BD_ERR_VERTICES
  | BD_ERR_BUILD_NAVMESH
  | BD_ERR_ALLOC_NAVMESH
  | BD_ERR_INIT_NAVMESH

text \<open>
  The fields of \<open>rcPolyMesh\<close>, \<open>rcPolyMeshDetail\<close> and \<open>rcConfig\<close> (declared in Recast.h,
  a library header) that Bridging.cpp reads or writes. \<open>unsigned short\<close> is a 16-bit
  word, \<open>unsigned char\<close> an 8-bit word, \<open>unsigned int\<close> a 32-bit word.
\<close>

record 'f rcPolyMesh =
  verts :: "16 word list"
  polys :: "16 word list"
  flags :: "16 word list"
  areas :: "8 word list"
  nverts :: int
  npolys :: int
  nvp :: int
  bmin :: "'f vec3"
  bmax :: "'f vec3"
  cs :: 'f
  ch :: 'f

record 'f rcPolyMeshDetail =
  meshes :: "32 word list"
  verts :: "'f list"
  tris :: "8 word list"
  nverts :: int
  ntris :: int

record 'f rcConfig =
  cs :: 'f
  ch :: 'f
  maxVertsPerPoly :: int

record 'f BindingBulkResult =
  code :: BCodeStatus
  cs :: 'f
  ch :: 'f
  poly_mesh :: "'f rcPolyMesh ptr"
  poly_mesh_detail :: "'f rcPolyMeshDetail ptr"
  max_verts_per_poly :: int

record 'f BindingVertsAndTriangles =
  nverts :: int
  ntris :: int
  verts :: "'f list"
  triangles :: "32 word list"

section \<open>bindingGenerateDetour\<close>

text \<open>
  The fields of \<open>dtNavMeshCreateParams\<close> (DetourNavMeshBuilder.h) that the function
  sets; \<open>memset\<close> leaves the others zero.
\<close>

record 'f dtNavMeshCreateParams =
  verts :: "16 word list"
  vertCount :: int
  polys :: "16 word list"
  polyAreas :: "8 word list"
  polyFlags :: "16 word list"
  polyCount :: int
  nvp :: int
  detailMeshes :: "32 word list"
  detailVerts :: "'f list"
  detailVertsCount :: int
  detailTris :: "8 word list"
  detailTriCount :: int
  walkableHeight :: 'f
  walkableRadius :: 'f
  walkableClimb :: 'f
  bmin :: "'f vec3"
  bmax :: "'f vec3"
  cs :: 'f
  ch :: 'f
  buildBvTree :: bool

text \<open>
  The Detour library is outside of the repository. Its two fallible calls are the
  environment of the function: \<open>dtCreateNavMeshData\<close> returns the serialized buffer and
  its size, or fails; \<open>dtAllocNavMesh\<close> returns a navmesh object, or null.
\<close>

record 'f dt_env =
  dtCreateNavMeshData :: "'f dtNavMeshCreateParams \<Rightarrow> (8 word list \<times> int) option"
  dtAllocNavMesh_ok :: bool

text \<open>The calls into Detour, in the order the function makes them.\<close>

datatype dt_event =
    CreateNavMeshData
  | AllocNavMesh
  | FreeBuffer "8 word list"   \<comment> \<open>\<open>dtFree\<close> of this buffer\<close>

text \<open>
  What the caller observes after the call: the status returned, the \<open>BindingBulkResult\<close>
  behind \<open>data\<close>, the cells behind the out-parameters \<open>result\<close> and \<open>result_size\<close>, and
  the calls made into Detour.
\<close>

record 'f detour_outcome =
  status :: BDetourStatus
  data_after :: "'f BindingBulkResult"
  result_cell :: "8 word list ptr"
  result_size_cell :: int
  dt_calls :: "dt_event list"

text \<open>Lines 263-265: \<open>for (int i = 0; i < poly_mesh->npolys; ++i) poly_mesh->flags[i] = 1;\<close>\<close>

function set_poly_flags :: "16 word list \<Rightarrow> int \<Rightarrow> int \<Rightarrow> 16 word list option" where
  "set_poly_flags fl i n =
     (if i < n then do { fl' \<leftarrow> wr fl i 1; set_poly_flags fl' (i + 1) n } else Some fl)"
  by pat_completeness auto
termination
  by (relation "measure (\<lambda>(fl, i, n). nat (n - i))") auto

text \<open>Lines 267-296: the parameter record handed to the serialization routine.\<close>

definition detour_params ::
  "'f rcPolyMesh \<Rightarrow> 'f rcPolyMeshDetail \<Rightarrow> 'f BindingBulkResult \<Rightarrow> 'f \<Rightarrow> 'f \<Rightarrow> 'f
    \<Rightarrow> 'f dtNavMeshCreateParams" where
  "detour_params pm pmd data agentHeight agentRadius agentMaxClimb =
     \<lparr> dtNavMeshCreateParams.verts = rcPolyMesh.verts pm,
       vertCount = rcPolyMesh.nverts pm,
       polys = rcPolyMesh.polys pm,
       polyAreas = areas pm,
       polyFlags = flags pm,
       polyCount = npolys pm,
       nvp = rcPolyMesh.nvp pm,
       detailMeshes = meshes pmd,
       detailVerts = rcPolyMeshDetail.verts pmd,
       detailVertsCount = rcPolyMeshDetail.nverts pmd,
       detailTris = tris pmd,
       detailTriCount = rcPolyMeshDetail.ntris pmd,
       walkableHeight = agentHeight,
       walkableRadius = agentRadius,
       walkableClimb = agentMaxClimb,
       bmin = rcPolyMesh.bmin pm,
       bmax = rcPolyMesh.bmax pm,
       cs = BindingBulkResult.cs data,
       ch = BindingBulkResult.ch data,
       buildBvTree = True \<rparr>"

text \<open>
  Lines 247-311. \<open>DT_VERTS_PER_POLYGON\<close> is a constant of DetourNavMesh.h, a parameter
  here. \<open>result0\<close> and \<open>result_size0\<close> are what the cells behind the out-parameters hold
  before the call. On a failure of \<open>dtCreateNavMeshData\<close> the function calls it a second
  time and drops what it returns.
\<close>

definition bindingGenerateDetour ::
  "int \<Rightarrow> 'f dt_env \<Rightarrow> 'f BindingBulkResult \<Rightarrow> 'f \<Rightarrow> 'f \<Rightarrow> 'f
    \<Rightarrow> 8 word list ptr \<Rightarrow> int \<Rightarrow> 'f detour_outcome option" where
  "bindingGenerateDetour DT_VERTS_PER_POLYGON env data agentHeight agentRadius agentMaxClimb
      result0 result_size0 =
     (if max_verts_per_poly data > DT_VERTS_PER_POLYGON then
        Some \<lparr> status = BD_ERR_VERTICES, data_after = data, result_cell = result0,
               result_size_cell = result_size0, dt_calls = [] \<rparr>
      else do {
        pm \<leftarrow> deref (poly_mesh data);
        fl \<leftarrow> set_poly_flags (flags pm) 0 (npolys pm);
        let pm' = pm\<lparr>flags := fl\<rparr>;
        let data' = data\<lparr>poly_mesh := Ptr pm'\<rparr>;
        pmd \<leftarrow> deref (poly_mesh_detail data);
        let params = detour_params pm' pmd data' agentHeight agentRadius agentMaxClimb;
        (case dtCreateNavMeshData env params of
           None \<Rightarrow>
             Some \<lparr> status = BD_ERR_BUILD_NAVMESH, data_after = data', result_cell = result0,
                    result_size_cell = result_size0,
                    dt_calls = [CreateNavMeshData, CreateNavMeshData] \<rparr>
         | Some (navData, navDataSize) \<Rightarrow>
             if \<not> dtAllocNavMesh_ok env then
               Some \<lparr> status = BD_ERR_ALLOC_NAVMESH, data_after = data', result_cell = result0,
                      result_size_cell = result_size0,
                      dt_calls = [CreateNavMeshData, AllocNavMesh, FreeBuffer navData] \<rparr>
             else
               Some \<lparr> status = BD_OK, data_after = data', result_cell = Ptr navData,
                      result_size_cell = navDataSize,
                      dt_calls = [CreateNavMeshData, AllocNavMesh] \<rparr>)
      })"

section \<open>bindingExtractVertsAndTriangles\<close>

text \<open>
  \<open>RC_MESH_NULL_IDX\<close> is a constant of Recast.h, the parameter \<open>null_idx\<close> here. The
  local variables \<open>nvp\<close>, \<open>npolys\<close> and \<open>ntris\<close> of the source are \<open>nvp'\<close>, \<open>npolys'\<close> and
  \<open>nt\<close>, since the plain names are fields of the records above. A polygon
  \<open>i\<close> of the mesh starts at \<open>p = &pmesh->polys[i*nvp*2]\<close>, the index \<open>base\<close> of the
  loops below.

  Lines 335-339, the inner loop of the sizing pass:
  \<^verbatim>\<open>for (int j = 2; j < nvp; ++j) { if (p[j] == RC_MESH_NULL_IDX) break; ntris += 3; }\<close>
\<close>

function count_poly :: "16 word \<Rightarrow> 16 word list \<Rightarrow> int \<Rightarrow> int \<Rightarrow> int \<Rightarrow> int \<Rightarrow> int option" where
  "count_poly null_idx ps base nvp' j nt =
     (if j < nvp' then do {
        pj \<leftarrow> rd ps (base + j);
        if pj = null_idx then Some nt
        else do {
          nt' \<leftarrow> ck (nt + 3);
          count_poly null_idx ps base nvp' (j + 1) nt'
        }
      } else Some nt)"
  by pat_completeness auto
termination
  by (relation "measure (\<lambda>(null_idx, ps, base, nvp', j, nt). nat (nvp' - j))") auto

text \<open>Lines 332-340, the sizing pass over the polygons \<open>i, ..., npolys - 1\<close>.\<close>

function count_polys :: "16 word \<Rightarrow> 16 word list \<Rightarrow> int \<Rightarrow> int \<Rightarrow> int \<Rightarrow> int \<Rightarrow> int option" where
  "count_polys null_idx ps nvp' npolys' i nt =
     (if i < npolys' then do {
        inv \<leftarrow> ck (i * nvp');
        base \<leftarrow> ck (inv * 2);
        nt' \<leftarrow> count_poly null_idx ps base nvp' 2 nt;
        count_polys null_idx ps nvp' npolys' (i + 1) nt'
      } else Some nt)"
  by pat_completeness auto
termination
  by (relation "measure (\<lambda>(null_idx, ps, nvp', npolys', i, nt). nat (npolys' - i))") auto

text \<open>
  Lines 356-362, the vertex pass from vertex \<open>i\<close> on, writing \<open>verts[k++]\<close>. The
  coordinates \<open>v[0], v[1], v[2]\<close> are \<open>unsigned short\<close>, promoted to \<open>int\<close> and then
  converted to \<open>float\<close>.
\<close>

function transform_verts ::
  "'f fops \<Rightarrow> 'f rcPolyMesh \<Rightarrow> int \<Rightarrow> 'f list \<times> int \<Rightarrow> ('f list \<times> int) option" where
  "transform_verts fo pm i (buf, k) =
     (if i < rcPolyMesh.nverts pm then do {
        i3 \<leftarrow> ck (i * 3);
        v0 \<leftarrow> rd (rcPolyMesh.verts pm) i3;
        b1 \<leftarrow> wr buf k (fadd fo (fst (rcPolyMesh.bmin pm))
                (fmul fo (fint fo (uint v0)) (rcPolyMesh.cs pm)));
        k1 \<leftarrow> ck (k + 1);
        v1 \<leftarrow> rd (rcPolyMesh.verts pm) (i3 + 1);
        b2 \<leftarrow> wr b1 k1 (fadd fo
                (fadd fo (fst (snd (rcPolyMesh.bmin pm)))
                   (fmul fo (fint fo (uint v1 + 1)) (rcPolyMesh.ch pm)))
                (feps fo));
        k2 \<leftarrow> ck (k1 + 1);
        v2 \<leftarrow> rd (rcPolyMesh.verts pm) (i3 + 2);
        b3 \<leftarrow> wr b2 k2 (fadd fo (snd (snd (rcPolyMesh.bmin pm)))
                (fmul fo (fint fo (uint v2)) (rcPolyMesh.cs pm)));
        k3 \<leftarrow> ck (k2 + 1);
        b4 \<leftarrow> wr b3 k3 (fint fo 0);
        k4 \<leftarrow> ck (k3 + 1);
        transform_verts fo pm (i + 1) (b4, k4)
      } else Some (buf, k))"
  by pat_completeness auto
termination
  by (relation "measure (\<lambda>(fo, pm, i, bk). nat (rcPolyMesh.nverts pm - i))") auto

text \<open>
  Lines 367-373, the inner loop of the emission pass, writing \<open>trisArray[k++]\<close>; an
  \<open>unsigned short\<close> index is widened to \<open>uint32_t\<close>.
\<close>

function emit_poly ::
  "16 word \<Rightarrow> 16 word list \<Rightarrow> int \<Rightarrow> int \<Rightarrow> int \<Rightarrow> 32 word list \<times> int
    \<Rightarrow> (32 word list \<times> int) option" where
  "emit_poly null_idx ps base nvp' j (buf, k) =
     (if j < nvp' then do {
        pj \<leftarrow> rd ps (base + j);
        if pj = null_idx then Some (buf, k)
        else do {
          p0 \<leftarrow> rd ps base;
          b1 \<leftarrow> wr buf k (ucast p0);
          k1 \<leftarrow> ck (k + 1);
          pj1 \<leftarrow> rd ps (base + (j - 1));
          b2 \<leftarrow> wr b1 k1 (ucast pj1);
          k2 \<leftarrow> ck (k1 + 1);
          b3 \<leftarrow> wr b2 k2 (ucast pj);
          k3 \<leftarrow> ck (k2 + 1);
          emit_poly null_idx ps base nvp' (j + 1) (b3, k3)
        }
      } else Some (buf, k))"
  by pat_completeness auto
termination
  by (relation "measure (\<lambda>(null_idx, ps, base, nvp', j, bk). nat (nvp' - j))") auto

text \<open>Lines 365-374, the emission pass over the polygons \<open>i, ..., npolys - 1\<close>.\<close>

function emit_polys ::
  "16 word \<Rightarrow> 16 word list \<Rightarrow> int \<Rightarrow> int \<Rightarrow> int \<Rightarrow> 32 word list \<times> int
    \<Rightarrow> (32 word list \<times> int) option" where
  "emit_polys null_idx ps nvp' npolys' i (buf, k) =
     (if i < npolys' then do {
        inv \<leftarrow> ck (i * nvp');
        base \<leftarrow> ck (inv * 2);
        bk \<leftarrow> emit_poly null_idx ps base nvp' 2 (buf, k);
        emit_polys null_idx ps nvp' npolys' (i + 1) bk
      } else Some (buf, k))"
  by pat_completeness auto
termination
  by (relation "measure (\<lambda>(null_idx, ps, nvp', npolys', i, bk). nat (npolys' - i))") auto

text \<open>
  The triangles the emission pass emits, in order: the same two loops, collecting the
  triple of each iteration of lines 370-372 instead of writing it to the buffer.
\<close>

function emitted_poly ::
  "16 word \<Rightarrow> 16 word list \<Rightarrow> int \<Rightarrow> int \<Rightarrow> int
    \<Rightarrow> (32 word \<times> 32 word \<times> 32 word) list option" where
  "emitted_poly null_idx ps base nvp' j =
     (if j < nvp' then do {
        pj \<leftarrow> rd ps (base + j);
        if pj = null_idx then Some []
        else do {
          p0 \<leftarrow> rd ps base;
          pj1 \<leftarrow> rd ps (base + (j - 1));
          rest \<leftarrow> emitted_poly null_idx ps base nvp' (j + 1);
          Some ((ucast p0, ucast pj1, ucast pj) # rest)
        }
      } else Some [])"
  by pat_completeness auto
termination
  by (relation "measure (\<lambda>(null_idx, ps, base, nvp', j). nat (nvp' - j))") auto

function emitted_polys ::
  "16 word \<Rightarrow> 16 word list \<Rightarrow> int \<Rightarrow> int \<Rightarrow> int
    \<Rightarrow> (32 word \<times> 32 word \<times> 32 word) list option" where
  "emitted_polys null_idx ps nvp' npolys' i =
     (if i < npolys' then do {
        inv \<leftarrow> ck (i * nvp');
        base \<leftarrow> ck (inv * 2);
        ts \<leftarrow> emitted_poly null_idx ps base nvp' 2;
        rest \<leftarrow> emitted_polys null_idx ps nvp' npolys' (i + 1);
        Some (ts @ rest)
      } else Some [])"
  by pat_completeness auto
termination
  by (relation "measure (\<lambda>(null_idx, ps, nvp', npolys', i). nat (npolys' - i))") auto

text \<open>The index entries of a list of triangles, as they lie in the buffer.\<close>

fun flat :: "('a \<times> 'a \<times> 'a) list \<Rightarrow> 'a list" where
  "flat [] = []"
| "flat ((a, b, c) # ts) = a # b # c # flat ts"

text \<open>The three \<open>calloc\<close> calls of the function succeed or return null.\<close>

record extract_env =
  calloc_ret_ok :: bool
  calloc_verts_ok :: bool
  calloc_tris_ok :: bool

text \<open>
  Lines 314-376. A \<open>calloc\<close> of a negative \<open>int\<close> count, converted to \<open>size_t\<close>, is a
  request beyond the address space and returns null; the buffer it returns otherwise is
  zeroed. \<open>ret\<close> is not checked: when its \<open>calloc\<close> fails, \<open>freeVertsAndTriangles (ret)\<close>
  or \<open>ret->verts = verts\<close> dereferences null. On the two checked failures the function
  frees what it holds and returns null.
\<close>

definition bindingExtractVertsAndTriangles ::
  "'f fops \<Rightarrow> 16 word \<Rightarrow> extract_env \<Rightarrow> 'f BindingBulkResult
    \<Rightarrow> 'f BindingVertsAndTriangles ptr option" where
  "bindingExtractVertsAndTriangles fo null_idx env bbr = do {
     pmesh \<leftarrow> deref (poly_mesh bbr);
     n4 \<leftarrow> ck (rcPolyMesh.nverts pmesh * 4);
     if n4 < 0 \<or> \<not> calloc_verts_ok env then
       (if calloc_ret_ok env then Some Null else None)
     else if \<not> calloc_ret_ok env then None
     else do {
       nt \<leftarrow> count_polys null_idx (rcPolyMesh.polys pmesh) (rcPolyMesh.nvp pmesh)
                  (npolys pmesh) 0 0;
       if \<not> calloc_tris_ok env then Some Null
       else do {
         (vbuf, kv) \<leftarrow> transform_verts fo pmesh 0 (replicate (nat n4) (fint fo 0), 0);
         (tbuf, kt) \<leftarrow> emit_polys null_idx (rcPolyMesh.polys pmesh) (rcPolyMesh.nvp pmesh)
                         (npolys pmesh) 0 (replicate (nat nt) 0, 0);
         Some (Ptr \<lparr> BindingVertsAndTriangles.nverts = rcPolyMesh.nverts pmesh,
                     ntris = nt, verts = vbuf, triangles = tbuf \<rparr>)
       }
     }
   }"

section \<open>bindingRunBulk\<close>

text \<open>The flag bits of Bridging.h (lines 41-51); \<open>flags\<close> is a C \<open>int\<close>, its bits a 32-bit word.\<close>

definition FILTER_LOW_HANGING_OBSTACLES :: "32 word" where
  "FILTER_LOW_HANGING_OBSTACLES = 1"

definition FILTER_LEDGE_SPANS :: "32 word" where
  "FILTER_LEDGE_SPANS = 2"

definition FILTER_WALKABLE_LOW_HEIGHT_SPANS :: "32 word" where
  "FILTER_WALKABLE_LOW_HEIGHT_SPANS = 4"

definition PARTITION_MASK :: "32 word" where
  "PARTITION_MASK = 24"

definition PARTITION_WATERSHED :: "32 word" where
  "PARTITION_WATERSHED = 8"

definition PARTITION_MONOTONE :: "32 word" where
  "PARTITION_MONOTONE = 16"

definition PARTITION_LAYER :: "32 word" where
  "PARTITION_LAYER = 0"

text \<open>
  The heap objects of the pipeline: the five stage structures of Recast, the per-triangle
  area array \<open>tri_areas\<close>, and the \<open>BindingBulkResult\<close> the function returns.
\<close>

datatype resource =
    Heightfield
  | CompactHeightfield
  | ContourSet
  | PolyMesh
  | PolyMeshDetail
  | TriAreas
  | BulkResult

text \<open>The Recast routines the function calls on these objects.\<close>

datatype rc_call =
    rcCreateHeightfield
  | rcMarkWalkableTriangles
  | rcRasterizeTriangles
  | rcFilterLowHangingWalkableObstacles
  | rcFilterLedgeSpans
  | rcFilterWalkableLowHeightSpans
  | rcBuildCompactHeightfield
  | rcErodeWalkableArea
  | rcBuildLayerRegions
  | rcBuildRegionsMonotone
  | rcBuildDistanceField
  | rcBuildRegions
  | rcBuildContours
  | rcBuildPolyMesh
  | rcBuildPolyMeshDetail

text \<open>
  What the function does to the heap and the library, in order: an allocation that
  succeeded, a release, a call of a routine.
\<close>

datatype event = Alloc resource | Free resource | Call rc_call

text \<open>
  Recast is outside of the repository: whether each of its fallible calls (and each
  \<open>calloc\<close>) succeeds is the environment of the function, and so are the polygon mesh
  and the detail mesh that the library builds.
\<close>

record 'f rc_env =
  rcAllocHeightfield_ok :: bool
  calloc_result_ok :: bool
  rcCreateHeightfield_ok :: bool
  calloc_tri_areas_ok :: bool
  rcRasterizeTriangles_ok :: bool
  rcAllocCompactHeightfield_ok :: bool
  rcBuildCompactHeightfield_ok :: bool
  rcBuildLayerRegions_ok :: bool
  rcBuildRegionsMonotone_ok :: bool
  rcBuildDistanceField_ok :: bool
  rcBuildRegions_ok :: bool
  rcAllocContourSet_ok :: bool
  rcBuildContours_ok :: bool
  rcAllocPolyMesh_ok :: bool
  rcBuildPolyMesh_ok :: bool
  rcAllocPolyMeshDetail_ok :: bool
  rcBuildPolyMeshDetail_ok :: bool
  built_poly_mesh :: "'f rcPolyMesh"
  built_poly_mesh_detail :: "'f rcPolyMeshDetail"

text \<open>
  The local pointers of the function (lines 21-25), the result record behind \<open>result\<close>,
  and the events so far. The three first structures are opaque to the function.
\<close>

record 'f bulk_state =
  hf :: "unit ptr"
  chf :: "unit ptr"
  cset :: "unit ptr"
  poly_mesh_local :: "'f rcPolyMesh ptr"
  detail_mesh_local :: "'f rcPolyMeshDetail ptr"
  result :: "'f BindingBulkResult"
  trace :: "event list"

definition log :: "event \<Rightarrow> 'f bulk_state \<Rightarrow> 'f bulk_state" where
  "log e s = s\<lparr>trace := trace s @ [e]\<rparr>"

definition set_code :: "BCodeStatus \<Rightarrow> 'f bulk_state \<Rightarrow> 'f bulk_state" where
  "set_code c s = s\<lparr>result := (result s)\<lparr>code := c\<rparr>\<rparr>"

text \<open>Lines 212-227: the labels \<open>exit5\<close> to \<open>exit1\<close> fall through to \<open>return result\<close>.\<close>

definition exit1 :: "'f bulk_state \<Rightarrow> 'f bulk_state" where
  "exit1 s = (if hf s \<noteq> Null then log (Free Heightfield) s else s)"

definition exit2 :: "'f bulk_state \<Rightarrow> 'f bulk_state" where
  "exit2 s = exit1 (if chf s \<noteq> Null then log (Free CompactHeightfield) s else s)"

definition exit3 :: "'f bulk_state \<Rightarrow> 'f bulk_state" where
  "exit3 s = exit2 (if cset s \<noteq> Null then log (Free ContourSet) s else s)"

definition exit4 :: "'f bulk_state \<Rightarrow> 'f bulk_state" where
  "exit4 s = exit3 (if poly_mesh_local s \<noteq> Null then log (Free PolyMesh) s else s)"

definition exit5 :: "'f bulk_state \<Rightarrow> 'f bulk_state" where
  "exit5 s = exit4 (if detail_mesh_local s \<noteq> Null then log (Free PolyMeshDetail) s else s)"

text \<open>Lines 183-210: the success path.\<close>

definition finish :: "'f bulk_state \<Rightarrow> 'f bulk_state" where
  "finish s =
     (let s1 = (log (Free CompactHeightfield) s)\<lparr>chf := Null\<rparr>;
          s2 = (log (Free ContourSet) s1)\<lparr>cset := Null\<rparr>
      in s2\<lparr>result := (result s2)\<lparr>code := BCODE_OK,
                                   poly_mesh := poly_mesh_local s2,
                                   poly_mesh_detail := detail_mesh_local s2\<rparr>\<rparr>)"

text \<open>Lines 174-182: step 7, the detail mesh.\<close>

definition stage_detail :: "'f rc_env \<Rightarrow> 'f bulk_state \<Rightarrow> 'f bulk_state" where
  "stage_detail env s =
     (if \<not> rcAllocPolyMeshDetail_ok env then
        exit4 (set_code BCODE_ERR_ALLOC_DETAIL_POLY_MESH s)
      else
        let s1 = (log (Alloc PolyMeshDetail) s)
                   \<lparr>detail_mesh_local := Ptr (built_poly_mesh_detail env)\<rparr>;
            s2 = log (Call rcBuildPolyMeshDetail) s1
        in if \<not> rcBuildPolyMeshDetail_ok env then
             exit5 (set_code BCODE_ERR_BUILD_DETAIL_POLY_MESH s2)
           else finish s2)"

text \<open>Lines 162-170: step 6, the polygon mesh.\<close>

definition stage_poly_mesh :: "'f rc_env \<Rightarrow> 'f bulk_state \<Rightarrow> 'f bulk_state" where
  "stage_poly_mesh env s =
     (if \<not> rcAllocPolyMesh_ok env then
        exit3 (set_code BCODE_ERR_ALLOC_POLYMESH s)
      else
        let s1 = (log (Alloc PolyMesh) s)\<lparr>poly_mesh_local := Ptr (built_poly_mesh env)\<rparr>;
            s2 = log (Call rcBuildPolyMesh) s1
        in if \<not> rcBuildPolyMesh_ok env then
             exit4 (set_code BCODE_ERR_BUILD_POLY_MESH s2)
           else stage_detail env s2)"

text \<open>Lines 148-156: step 5, the contours.\<close>

definition stage_contours :: "'f rc_env \<Rightarrow> 'f bulk_state \<Rightarrow> 'f bulk_state" where
  "stage_contours env s =
     (if \<not> rcAllocContourSet_ok env then
        exit2 (set_code BCODE_ERR_ALLOC_CONTOUR s)
      else
        let s1 = (log (Alloc ContourSet) s)\<lparr>cset := Ptr ()\<rparr>;
            s2 = log (Call rcBuildContours) s1
        in if \<not> rcBuildContours_ok env then
             exit3 (set_code BCODE_ERR_BUILD_CONTOUR s2)
           else stage_poly_mesh env s2)"

text \<open>Lines 118-143: the partition of the walkable surface into regions.\<close>

definition stage_partition :: "'f rc_env \<Rightarrow> 32 word \<Rightarrow> 'f bulk_state \<Rightarrow> 'f bulk_state" where
  "stage_partition env flags' s =
     (let partition = flags' AND PARTITION_MASK in
      if partition = PARTITION_LAYER then
        (let s1 = log (Call rcBuildLayerRegions) s
         in if \<not> rcBuildLayerRegions_ok env then
              exit2 (set_code BCODE_ERR_BUILD_LAYER_REGIONS s1)
            else stage_contours env s1)
      else if partition = PARTITION_MONOTONE then
        (let s1 = log (Call rcBuildRegionsMonotone) s
         in if \<not> rcBuildRegionsMonotone_ok env then
              exit2 (set_code BCODE_ERR_BUILD_REGIONS_MONOTONE s1)
            else stage_contours env s1)
      else if partition = PARTITION_WATERSHED then
        (let s1 = log (Call rcBuildDistanceField) s
         in if \<not> rcBuildDistanceField_ok env then
              exit2 (set_code BCODE_ERR_BUILD_DISTANCE_FIELD s1)
            else
              let s2 = log (Call rcBuildRegions) s1
              in if \<not> rcBuildRegions_ok env then
                   exit2 (set_code BCODE_ERR_BUILD_REGIONS s2)
                 else stage_contours env s2)
      else stage_contours env s)"

text \<open>Lines 99-116: step 4, the compact heightfield, and the erosion.\<close>

definition stage_compact :: "'f rc_env \<Rightarrow> 32 word \<Rightarrow> 'f bulk_state \<Rightarrow> 'f bulk_state" where
  "stage_compact env flags' s =
     (if \<not> rcAllocCompactHeightfield_ok env then
        exit1 (set_code BCODE_ERR_MEMORY s)
      else
        let s1 = (log (Alloc CompactHeightfield) s)\<lparr>chf := Ptr ()\<rparr>;
            s2 = log (Call rcBuildCompactHeightfield) s1
        in if \<not> rcBuildCompactHeightfield_ok env then
             exit2 (set_code BCODE_ERR_BUILD_COMPACT_HEIGHTFIELD s2)
           else
             let s3 = (if hf s2 \<noteq> Null then (log (Free Heightfield) s2)\<lparr>hf := Null\<rparr> else s2);
                 s4 = log (Call rcErodeWalkableArea) s3
             in stage_partition env flags' s4)"

text \<open>Lines 86-91: step 3, the three optional filters, each a call without a failure signal.\<close>

definition filter_calls :: "32 word \<Rightarrow> event list" where
  "filter_calls flags' =
     (if flags' AND FILTER_LOW_HANGING_OBSTACLES \<noteq> 0
      then [Call rcFilterLowHangingWalkableObstacles] else []) @
     (if flags' AND FILTER_LEDGE_SPANS \<noteq> 0
      then [Call rcFilterLedgeSpans] else []) @
     (if flags' AND FILTER_WALKABLE_LOW_HEIGHT_SPANS \<noteq> 0
      then [Call rcFilterWalkableLowHeightSpans] else [])"

definition stage_filters :: "32 word \<Rightarrow> 'f bulk_state \<Rightarrow> 'f bulk_state" where
  "stage_filters flags' s = s\<lparr>trace := trace s @ filter_calls flags'\<rparr>"

text \<open>
  Lines 61-78: the heightfield is created, the triangle areas are allocated (a negative
  count, converted to \<open>size_t\<close>, cannot be served) and the triangles rasterized.
  \<open>tri_areas\<close> is released on no path of the function.
\<close>

definition stage_rasterize ::
  "'f rc_env \<Rightarrow> 32 word \<Rightarrow> int \<Rightarrow> 'f bulk_state \<Rightarrow> 'f bulk_state" where
  "stage_rasterize env flags' ntris' s =
     (let s1 = log (Call rcCreateHeightfield) s
      in if \<not> rcCreateHeightfield_ok env then exit1 s1
         else if ntris' < 0 \<or> \<not> calloc_tri_areas_ok env then
           exit1 (set_code BCODE_ERR_MEMORY s1)
         else
           let s2 = log (Alloc TriAreas) s1;
               s3 = log (Call rcMarkWalkableTriangles) s2;
               s4 = log (Call rcRasterizeTriangles) s3
           in if \<not> rcRasterizeTriangles_ok env then
                exit1 (set_code BCODE_ERR_RASTERIZE s4)
              else stage_compact env flags' (stage_filters flags' s4))"

text \<open>
  Lines 19-228. The geometry (\<open>verts\<close>, \<open>nverts\<close>, \<open>tris\<close>) only goes to the calls of the
  library, whose outcomes are in the environment. The function returns the pointer
  \<open>result\<close>, here with the events of the run. When the heightfield cannot be allocated
  it returns \<open>NULL\<close>; the \<open>calloc\<close> of \<open>result\<close> is not checked, and \<open>result->code\<close>
  dereferences null when it fails.
\<close>

definition bindingRunBulk ::
  "'f rc_env \<Rightarrow> 'f rcConfig \<Rightarrow> 32 word \<Rightarrow> int
    \<Rightarrow> ('f BindingBulkResult ptr \<times> event list) option" where
  "bindingRunBulk env cfg flags' ntris' =
     (if \<not> rcAllocHeightfield_ok env then Some (Null, [])
      else if \<not> calloc_result_ok env then None
      else
        let s0 = \<lparr> hf = Ptr (), chf = Null, cset = Null, poly_mesh_local = Null,
                    detail_mesh_local = Null,
                    result = \<lparr> code = BCODE_ERR_UNKNOWN,
                               cs = rcConfig.cs cfg,
                               ch = rcConfig.ch cfg,
                               poly_mesh = Null,
                               poly_mesh_detail = Null,
                               max_verts_per_poly = maxVertsPerPoly cfg \<rparr>,
                    trace = [Alloc Heightfield, Alloc BulkResult] \<rparr>;
            s = stage_rasterize env flags' ntris' s0
        in Some (Ptr (result s), trace s))"

text \<open>The objects allocated and not released at the end of a sequence of events.\<close>

fun held :: "event list \<Rightarrow> resource set \<Rightarrow> resource set" where
  "held [] H = H"
| "held (Alloc r # es) H = held es (insert r H)"
| "held (Free r # es) H = held es (H - {r})"
| "held (Call c # es) H = held es H"

text \<open>
  A sequence of events releases only what is allocated at that moment, and allocates
  only what is not: no object is released twice.
\<close>

fun well_formed :: "event list \<Rightarrow> resource set \<Rightarrow> bool" where
  "well_formed [] H = True"
| "well_formed (Alloc r # es) H = (r \<notin> H \<and> well_formed es (insert r H))"
| "well_formed (Free r # es) H = (r \<in> H \<and> well_formed es (H - {r}))"
| "well_formed (Call c # es) H = well_formed es H"

section \<open>Vocabulary of the properties of bindingRunBulk\<close>

text \<open>The status of an envelope agrees with its two mesh pointers.\<close>

definition envelope_consistent :: "'f BindingBulkResult \<Rightarrow> bool" where
  "envelope_consistent r =
     ((code r = BCODE_OK \<and> poly_mesh r \<noteq> Null \<and> poly_mesh_detail r \<noteq> Null) \<or>
      (code r \<noteq> BCODE_OK \<and> poly_mesh r = Null \<and> poly_mesh_detail r = Null))"

text \<open>The five stage structures, and those of them the local pointers point to.\<close>

definition stage_resources :: "resource set" where
  "stage_resources = {Heightfield, CompactHeightfield, ContourSet, PolyMesh, PolyMeshDetail}"

definition pointed :: "'f bulk_state \<Rightarrow> resource set" where
  "pointed s =
     (if hf s \<noteq> Null then {Heightfield} else {}) \<union>
     (if chf s \<noteq> Null then {CompactHeightfield} else {}) \<union>
     (if cset s \<noteq> Null then {ContourSet} else {}) \<union>
     (if poly_mesh_local s \<noteq> Null then {PolyMesh} else {}) \<union>
     (if detail_mesh_local s \<noteq> Null then {PolyMeshDetail} else {})"

text \<open>
  The invariant of the pipeline: the events so far released nothing twice, and the stage
  structures allocated and not released are those the local pointers point to.
\<close>

definition tracked :: "'f bulk_state \<Rightarrow> bool" where
  "tracked s = (well_formed (trace s) {} \<and> held (trace s) {} \<inter> stage_resources = pointed s)"

text \<open>
  At the return: nothing was released twice, and of the stage structures a successful
  run holds the two meshes, a failed run none.
\<close>

definition safe_return :: "'f bulk_state \<Rightarrow> bool" where
  "safe_return s =
     (well_formed (trace s) {} \<and>
      held (trace s) {} \<inter> stage_resources =
        (if code (result s) = BCODE_OK then {PolyMesh, PolyMeshDetail} else {}))"

text \<open>
  The events of the steps before the compact heightfield is built, of the partition
  step, and of the steps after it together with the unwinding.
\<close>

definition early_events :: "event set" where
  "early_events =
     {Alloc Heightfield, Alloc BulkResult, Call rcCreateHeightfield, Alloc TriAreas,
      Call rcMarkWalkableTriangles, Call rcRasterizeTriangles,
      Call rcFilterLowHangingWalkableObstacles, Call rcFilterLedgeSpans,
      Call rcFilterWalkableLowHeightSpans, Alloc CompactHeightfield}"

definition partition_events :: "event set" where
  "partition_events =
     {Call rcBuildLayerRegions, Call rcBuildRegionsMonotone, Call rcBuildDistanceField,
      Call rcBuildRegions}"

definition tail_events :: "event set" where
  "tail_events =
     {Alloc ContourSet, Call rcBuildContours, Alloc PolyMesh, Call rcBuildPolyMesh,
      Alloc PolyMeshDetail, Call rcBuildPolyMeshDetail, Free CompactHeightfield,
      Free ContourSet, Free PolyMesh, Free PolyMeshDetail}"

text \<open>
  The run gets to the partition step (line 118): every allocation and build before it
  succeeded, the build of the compact heightfield among them.
\<close>

definition reaches_partition :: "'f rc_env \<Rightarrow> int \<Rightarrow> bool" where
  "reaches_partition env ntris' =
     (rcAllocHeightfield_ok env \<and> calloc_result_ok env \<and> rcCreateHeightfield_ok env \<and>
      0 \<le> ntris' \<and> calloc_tri_areas_ok env \<and> rcRasterizeTriangles_ok env \<and>
      rcAllocCompactHeightfield_ok env \<and> rcBuildCompactHeightfield_ok env)"

text \<open>The record behind \<open>result\<close> after lines 50-56, and the state at line 118 of such a run.\<close>

definition initial_result :: "'f rcConfig \<Rightarrow> 'f BindingBulkResult" where
  "initial_result cfg =
     \<lparr> code = BCODE_ERR_UNKNOWN, cs = rcConfig.cs cfg, ch = rcConfig.ch cfg,
       poly_mesh = Null, poly_mesh_detail = Null, max_verts_per_poly = maxVertsPerPoly cfg \<rparr>"

definition before_partition :: "'f rcConfig \<Rightarrow> 32 word \<Rightarrow> 'f bulk_state" where
  "before_partition cfg flags' =
     \<lparr> hf = Null, chf = Ptr (), cset = Null, poly_mesh_local = Null, detail_mesh_local = Null,
       result = initial_result cfg,
       trace = [Alloc Heightfield, Alloc BulkResult, Call rcCreateHeightfield, Alloc TriAreas,
                Call rcMarkWalkableTriangles, Call rcRasterizeTriangles] @
               filter_calls flags' @
               [Alloc CompactHeightfield, Call rcBuildCompactHeightfield, Free Heightfield,
                Call rcErodeWalkableArea] \<rparr>"

section \<open>Vocabulary of the properties of bindingExtractVertsAndTriangles\<close>

text \<open>
  The polygon at \<open>base\<close> has \<open>k\<close> valid vertex slots: the slots \<open>0, ..., k - 1\<close> lie in
  the array and hold no null index, and \<open>k\<close> is the slot limit \<open>nvp\<close> or slot \<open>k\<close> holds
  the null index.
\<close>

definition valid_slots :: "16 word \<Rightarrow> 16 word list \<Rightarrow> int \<Rightarrow> int \<Rightarrow> nat \<Rightarrow> bool" where
  "valid_slots null_idx ps base nvp' k =
     (int k \<le> nvp' \<and>
      (\<forall>j \<in> {..<k}. rd ps (base + int j) \<noteq> None \<and> rd ps (base + int j) \<noteq> Some null_idx) \<and>
      (int k < nvp' \<longrightarrow> rd ps (base + int k) = Some null_idx))"

text \<open>
  The fan of such a polygon, in the words of the specification: the triangles
  \<open>(p0, p_{j-1}, p_j)\<close> for \<open>j\<close> from \<open>2\<close> to \<open>k - 1\<close>, where \<open>p_j\<close> is slot \<open>j\<close> of the polygon.
\<close>

definition fan :: "16 word list \<Rightarrow> int \<Rightarrow> nat \<Rightarrow> (32 word \<times> 32 word \<times> 32 word) list" where
  "fan ps base k =
     map (\<lambda>j. (ucast (ps ! nat base), ucast (ps ! nat (base + int j - 1)),
               ucast (ps ! nat (base + int j)))) [2..<k]"

text \<open>
  The world position of vertex \<open>i\<close> of the mesh, in the words of the specification:
  \<open>(origin_x + x * cellSize, origin_y + (y + 1) * cellHeight + verticalEpsilon,
  origin_z + z * cellSize, 0)\<close>, where \<open>(x, y, z)\<close> are the grid coordinates of the vertex,
  \<open>origin\<close> is \<open>bmin\<close>, and \<open>verticalEpsilon\<close> is the literal \<open>0.1f\<close>.
\<close>

definition world_vertex :: "'f fops \<Rightarrow> 'f rcPolyMesh \<Rightarrow> nat \<Rightarrow> 'f list" where
  "world_vertex fo pm i =
     [fadd fo (fst (rcPolyMesh.bmin pm))
        (fmul fo (fint fo (uint (rcPolyMesh.verts pm ! (3 * i)))) (rcPolyMesh.cs pm)),
      fadd fo
        (fadd fo (fst (snd (rcPolyMesh.bmin pm)))
           (fmul fo (fint fo (uint (rcPolyMesh.verts pm ! (3 * i + 1)) + 1)) (rcPolyMesh.ch pm)))
        (feps fo),
      fadd fo (snd (snd (rcPolyMesh.bmin pm)))
        (fmul fo (fint fo (uint (rcPolyMesh.verts pm ! (3 * i + 2)))) (rcPolyMesh.cs pm)),
      fint fo 0]"

section \<open>Concrete inputs\<close>

text \<open>
  A flat quad as Recast builds it: four vertices on the grid, one polygon with four
  vertex slots (\<open>nvp = 4\<close>, followed by its four neighbour entries), and its detail mesh.
  Floats are interpreted as real numbers here.
\<close>

definition quad_mesh :: "real rcPolyMesh" where
  "quad_mesh =
     \<lparr> rcPolyMesh.verts = [0, 0, 0,  10, 0, 0,  10, 0, 10,  0, 0, 10],
       polys = [0, 1, 2, 3,  0xffff, 0xffff, 0xffff, 0xffff],
       flags = [0],
       areas = [63],
       nverts = 4,
       npolys = 1,
       nvp = 4,
       bmin = (0, 0, 0),
       bmax = (10, 1, 10),
       cs = 1,
       ch = 1 / 2 \<rparr>"

definition quad_detail :: "real rcPolyMeshDetail" where
  "quad_detail =
     \<lparr> meshes = [0, 4, 0, 2],
       rcPolyMeshDetail.verts = [0, 6 / 10, 0,  10, 6 / 10, 0,  10, 6 / 10, 10,  0, 6 / 10, 10],
       tris = [0, 1, 2, 0,  0, 2, 3, 0],
       nverts = 4,
       ntris = 2 \<rparr>"

definition quad_result :: "int \<Rightarrow> real BindingBulkResult" where
  "quad_result mv =
     \<lparr> code = BCODE_OK, cs = 1, ch = 1 / 2, poly_mesh = Ptr quad_mesh,
       poly_mesh_detail = Ptr quad_detail, max_verts_per_poly = mv \<rparr>"

text \<open>A Detour whose serialization succeeds and whose navmesh allocation fails.\<close>

definition dt_env_fail_alloc :: "real dt_env" where
  "dt_env_fail_alloc =
     \<lparr> dtCreateNavMeshData = (\<lambda>p. Some ([1, 2, 3], 3)), dtAllocNavMesh_ok = False \<rparr>"

text \<open>A Recast in which every call succeeds and builds the quad, and a configuration.\<close>

definition rc_env_ok :: "real rc_env" where
  "rc_env_ok =
     \<lparr> rcAllocHeightfield_ok = True, calloc_result_ok = True,
       rcCreateHeightfield_ok = True, calloc_tri_areas_ok = True,
       rcRasterizeTriangles_ok = True, rcAllocCompactHeightfield_ok = True,
       rcBuildCompactHeightfield_ok = True, rcBuildLayerRegions_ok = True,
       rcBuildRegionsMonotone_ok = True, rcBuildDistanceField_ok = True,
       rcBuildRegions_ok = True, rcAllocContourSet_ok = True, rcBuildContours_ok = True,
       rcAllocPolyMesh_ok = True, rcBuildPolyMesh_ok = True, rcAllocPolyMeshDetail_ok = True,
       rcBuildPolyMeshDetail_ok = True, built_poly_mesh = quad_mesh,
       built_poly_mesh_detail = quad_detail \<rparr>"

definition quad_config :: "real rcConfig" where
  "quad_config = \<lparr> rcConfig.cs = 1, ch = 1 / 2, maxVertsPerPoly = 6 \<rparr>"

text \<open>
  A mesh of two polygons with four slots each: a quad, and a triangle whose fourth slot
  holds the null index. Real arithmetic for the floats, all allocations fine.
\<close>

definition fan_mesh :: "real rcPolyMesh" where
  "fan_mesh =
     \<lparr> rcPolyMesh.verts = [0, 0, 0,  10, 0, 0,  10, 0, 10,  0, 0, 10,  5, 2, 15],
       polys = [0, 1, 2, 3,  0xffff, 0xffff, 0xffff, 1,
                0, 3, 4, 0xffff,  0, 0xffff, 0xffff, 0xffff],
       flags = [0, 0],
       areas = [63, 63],
       nverts = 5,
       npolys = 2,
       nvp = 4,
       bmin = (0, 0, 0),
       bmax = (10, 2, 15),
       cs = 1,
       ch = 1 / 2 \<rparr>"

definition fan_result :: "real BindingBulkResult" where
  "fan_result =
     \<lparr> code = BCODE_OK, cs = 1, ch = 1 / 2, poly_mesh = Ptr fan_mesh,
       poly_mesh_detail = Ptr quad_detail, max_verts_per_poly = 4 \<rparr>"

definition real_fops :: "real fops" where
  "real_fops = \<lparr> fadd = (+), fmul = (*), fint = of_int, feps = 1 / 10 \<rparr>"

definition extract_env_ok :: extract_env where
  "extract_env_ok = \<lparr> calloc_ret_ok = True, calloc_verts_ok = True, calloc_tris_ok = True \<rparr>"

definition fan_extracted :: "real BindingVertsAndTriangles" where
  "fan_extracted =
     \<lparr> nverts = 5, ntris = 9,
       verts = [0, 6 / 10, 0, 0,  10, 6 / 10, 0, 0,  10, 6 / 10, 10, 0,  0, 6 / 10, 10, 0,
                5, 16 / 10, 15, 0],
       triangles = [0, 1, 2,  0, 2, 3,  0, 3, 4] \<rparr>"

section \<open>Properties of bindingGenerateDetour\<close>

text \<open>
  Claim C4. When \<open>max_verts_per_poly\<close> of the bake result exceeds \<open>DT_VERTS_PER_POLYGON\<close>,
  bindingGenerateDetour returns \<open>BD_ERR_VERTICES\<close> at once: the bake result (and with it
  the flags array of its polygon mesh) is what it was, no call into Detour is made (the
  serialization routine is not invoked), and the cells behind \<open>result\<close> and
  \<open>result_size\<close> keep what they held. This holds whatever the rest of the input is, a
  null mesh pointer included.
\<close>

theorem generateDetour_vertices_exceeded:
  "max_verts_per_poly data > DT_VERTS_PER_POLYGON \<Longrightarrow>
   bindingGenerateDetour DT_VERTS_PER_POLYGON env data agentHeight agentRadius agentMaxClimb
      result0 result_size0 =
     Some \<lparr> status = BD_ERR_VERTICES, data_after = data, result_cell = result0,
            result_size_cell = result_size0, dt_calls = [] \<rparr>"
  by (simp add: bindingGenerateDetour_def)

theorem generateDetour_vertices_exceeded_witness:
  "max_verts_per_poly (quad_result 7) > 6 \<and>
   bindingGenerateDetour 6 dt_env_fail_alloc (quad_result 7) 2 1 1 Null 0 =
     Some \<lparr> status = BD_ERR_VERTICES, data_after = quad_result 7, result_cell = Null,
            result_size_cell = 0, dt_calls = [] \<rparr>"
proof -
  have h: "max_verts_per_poly (quad_result 7) > 6"
    by (simp add: quad_result_def)
  from generateDetour_vertices_exceeded [OF h] h show ?thesis
    by blast
qed

text \<open>
  Claim C10. When the vertex-capacity check passes, the flags loop and the two mesh
  pointers are fine, the serialization routine succeeds with a buffer \<open>navData\<close>, and
  the allocation of the navmesh object fails, then bindingGenerateDetour frees
  \<open>navData\<close> (its last call into Detour), returns \<open>BD_ERR_ALLOC_NAVMESH\<close>, and leaves the
  cells behind \<open>result\<close> and \<open>result_size\<close> as they were. The polygon flags have been
  set by then.
\<close>

theorem generateDetour_alloc_navmesh_failure:
  assumes "\<not> max_verts_per_poly data > DT_VERTS_PER_POLYGON"
    and "deref (poly_mesh data) = Some pm"
    and "set_poly_flags (flags pm) 0 (npolys pm) = Some fl"
    and "deref (poly_mesh_detail data) = Some pmd"
    and "data' = data\<lparr>poly_mesh := Ptr (pm\<lparr>flags := fl\<rparr>)\<rparr>"
    and "dtCreateNavMeshData env
           (detour_params (pm\<lparr>flags := fl\<rparr>) pmd data' agentHeight agentRadius agentMaxClimb) =
         Some (navData, navDataSize)"
    and "\<not> dtAllocNavMesh_ok env"
  shows "bindingGenerateDetour DT_VERTS_PER_POLYGON env data agentHeight agentRadius
           agentMaxClimb result0 result_size0 =
         Some \<lparr> status = BD_ERR_ALLOC_NAVMESH, data_after = data', result_cell = result0,
                result_size_cell = result_size0,
                dt_calls = [CreateNavMeshData, AllocNavMesh, FreeBuffer navData] \<rparr>"
  using assms by (simp add: bindingGenerateDetour_def)

theorem generateDetour_alloc_navmesh_failure_witness:
  "bindingGenerateDetour 6 dt_env_fail_alloc (quad_result 6) 2 1 1 Null 0 =
     Some \<lparr> status = BD_ERR_ALLOC_NAVMESH,
            data_after = (quad_result 6)\<lparr>poly_mesh := Ptr (quad_mesh\<lparr>flags := [1]\<rparr>)\<rparr>,
            result_cell = Null, result_size_cell = 0,
            dt_calls = [CreateNavMeshData, AllocNavMesh, FreeBuffer [1, 2, 3]] \<rparr>"
proof -
  have 1: "\<not> max_verts_per_poly (quad_result 6) > 6"
    by (simp add: quad_result_def)
  have 2: "deref (poly_mesh (quad_result 6)) = Some quad_mesh"
    by (simp add: quad_result_def)
  have 3: "set_poly_flags (flags quad_mesh) 0 (npolys quad_mesh) = Some [1]"
    by (simp add: quad_mesh_def wr_def)
  have 4: "deref (poly_mesh_detail (quad_result 6)) = Some quad_detail"
    by (simp add: quad_result_def)
  have 6: "dtCreateNavMeshData dt_env_fail_alloc
             (detour_params (quad_mesh\<lparr>flags := [1]\<rparr>) quad_detail
                ((quad_result 6)\<lparr>poly_mesh := Ptr (quad_mesh\<lparr>flags := [1]\<rparr>)\<rparr>) 2 1 1) =
           Some ([1, 2, 3], 3)"
    by (simp add: dt_env_fail_alloc_def)
  have 7: "\<not> dtAllocNavMesh_ok dt_env_fail_alloc"
    by (simp add: dt_env_fail_alloc_def)
  show ?thesis
    by (rule generateDetour_alloc_navmesh_failure [OF 1 2 3 4 refl 6 7])
qed

section \<open>Properties of bindingRunBulk\<close>

subsection \<open>The fields of a state after a step\<close>

lemma log_fields:
  "trace (log e s) = trace s @ [e]"
  "hf (log e s) = hf s"
  "chf (log e s) = chf s"
  "cset (log e s) = cset s"
  "poly_mesh_local (log e s) = poly_mesh_local s"
  "detail_mesh_local (log e s) = detail_mesh_local s"
  "result (log e s) = result s"
  by (simp_all add: log_def)

lemma set_code_fields:
  "trace (set_code c s) = trace s"
  "hf (set_code c s) = hf s"
  "chf (set_code c s) = chf s"
  "cset (set_code c s) = cset s"
  "poly_mesh_local (set_code c s) = poly_mesh_local s"
  "detail_mesh_local (set_code c s) = detail_mesh_local s"
  "result (set_code c s) = (result s)\<lparr>code := c\<rparr>"
  by (simp_all add: set_code_def)

lemma exit1_result: "result (exit1 s) = result s"
  by (simp add: exit1_def log_fields)

lemma exit2_result: "result (exit2 s) = result s"
  by (simp add: exit2_def exit1_result log_fields)

lemma exit3_result: "result (exit3 s) = result s"
  by (simp add: exit3_def exit2_result log_fields)

lemma exit4_result: "result (exit4 s) = result s"
  by (simp add: exit4_def exit3_result log_fields)

lemma exit5_result: "result (exit5 s) = result s"
  by (simp add: exit5_def exit4_result log_fields)

lemmas exit_results = exit1_result exit2_result exit3_result exit4_result exit5_result

lemma finish_result:
  "result (finish s) = (result s)\<lparr>code := BCODE_OK, poly_mesh := poly_mesh_local s,
      poly_mesh_detail := detail_mesh_local s\<rparr>"
  by (simp add: finish_def Let_def log_fields)

lemma stage_detail_consistent:
  "poly_mesh (result s) = Null \<Longrightarrow> poly_mesh_detail (result s) = Null \<Longrightarrow>
   poly_mesh_local s \<noteq> Null \<Longrightarrow> envelope_consistent (result (stage_detail env s))"
  by (simp add: stage_detail_def Let_def exit_results finish_result log_fields set_code_fields
      envelope_consistent_def)

lemma stage_poly_mesh_consistent:
  "poly_mesh (result s) = Null \<Longrightarrow> poly_mesh_detail (result s) = Null \<Longrightarrow>
   envelope_consistent (result (stage_poly_mesh env s))"
  by (simp add: stage_poly_mesh_def Let_def exit_results log_fields set_code_fields
      stage_detail_consistent)
     (simp add: envelope_consistent_def)

lemma stage_contours_consistent:
  "poly_mesh (result s) = Null \<Longrightarrow> poly_mesh_detail (result s) = Null \<Longrightarrow>
   envelope_consistent (result (stage_contours env s))"
  by (simp add: stage_contours_def Let_def exit_results log_fields set_code_fields
      stage_poly_mesh_consistent)
     (simp add: envelope_consistent_def)

lemma stage_partition_consistent:
  "poly_mesh (result s) = Null \<Longrightarrow> poly_mesh_detail (result s) = Null \<Longrightarrow>
   envelope_consistent (result (stage_partition env flags' s))"
  by (simp add: stage_partition_def Let_def exit_results log_fields set_code_fields
      stage_contours_consistent)
     (simp add: envelope_consistent_def)

lemma stage_compact_consistent:
  "poly_mesh (result s) = Null \<Longrightarrow> poly_mesh_detail (result s) = Null \<Longrightarrow>
   envelope_consistent (result (stage_compact env flags' s))"
  by (simp add: stage_compact_def Let_def exit_results log_fields set_code_fields
      stage_partition_consistent)
     (simp add: envelope_consistent_def)

lemma stage_filters_result: "result (stage_filters flags' s) = result s"
  by (simp add: stage_filters_def)

lemma stage_rasterize_consistent:
  "poly_mesh (result s) = Null \<Longrightarrow> poly_mesh_detail (result s) = Null \<Longrightarrow>
   code (result s) \<noteq> BCODE_OK \<Longrightarrow>
   envelope_consistent (result (stage_rasterize env flags' ntris' s))"
  by (simp add: stage_rasterize_def Let_def exit_results log_fields set_code_fields
      stage_compact_consistent stage_filters_result)
     (simp add: envelope_consistent_def)

subsection \<open>Events and held objects\<close>

lemma held_append: "held (xs @ ys) H = held ys (held xs H)"
  by (induction xs H rule: held.induct) simp_all

lemma well_formed_append:
  "well_formed (xs @ ys) H = (well_formed xs H \<and> well_formed ys (held xs H))"
  by (induction xs H rule: well_formed.induct) auto

subsection \<open>The events of the unwinding\<close>

lemma exit2_trace:
  "hf s = Null \<Longrightarrow>
   trace (exit2 s) = trace s @ (if chf s \<noteq> Null then [Free CompactHeightfield] else [])"
  by (simp add: exit2_def exit1_def log_fields)

lemma exit3_trace:
  "hf s = Null \<Longrightarrow>
   trace (exit3 s) = trace s @ (if cset s \<noteq> Null then [Free ContourSet] else []) @
     (if chf s \<noteq> Null then [Free CompactHeightfield] else [])"
  by (simp add: exit3_def exit2_trace log_fields)

lemma exit4_trace:
  "hf s = Null \<Longrightarrow>
   trace (exit4 s) = trace s @ (if poly_mesh_local s \<noteq> Null then [Free PolyMesh] else []) @
     (if cset s \<noteq> Null then [Free ContourSet] else []) @
     (if chf s \<noteq> Null then [Free CompactHeightfield] else [])"
  by (simp add: exit4_def exit3_trace log_fields)

lemma exit5_trace:
  "hf s = Null \<Longrightarrow>
   trace (exit5 s) = trace s @
     (if detail_mesh_local s \<noteq> Null then [Free PolyMeshDetail] else []) @
     (if poly_mesh_local s \<noteq> Null then [Free PolyMesh] else []) @
     (if cset s \<noteq> Null then [Free ContourSet] else []) @
     (if chf s \<noteq> Null then [Free CompactHeightfield] else [])"
  by (simp add: exit5_def exit4_trace log_fields)

lemma finish_trace:
  "trace (finish s) = trace s @ [Free CompactHeightfield, Free ContourSet]"
  by (simp add: finish_def Let_def log_fields)

subsection \<open>The events from the contours on\<close>

lemma stage_detail_tail:
  "hf s = Null \<Longrightarrow>
   \<exists>post. trace (stage_detail env s) = trace s @ post \<and> set post \<subseteq> tail_events"
  by (auto simp add: stage_detail_def Let_def exit4_trace exit5_trace finish_trace log_fields
      set_code_fields tail_events_def)

lemma stage_poly_mesh_tail:
  assumes "hf s = Null"
  shows "\<exists>post. trace (stage_poly_mesh env s) = trace s @ post \<and> set post \<subseteq> tail_events"
proof (cases "rcAllocPolyMesh_ok env \<and> rcBuildPolyMesh_ok env")
  case True
  let ?s2 = "log (Call rcBuildPolyMesh)
               ((log (Alloc PolyMesh) s)\<lparr>poly_mesh_local := Ptr (built_poly_mesh env)\<rparr>)"
  have "hf ?s2 = Null"
    using assms by (simp add: log_fields)
  from stage_detail_tail [OF this, of env] obtain post
    where "trace (stage_detail env ?s2) = trace ?s2 @ post" "set post \<subseteq> tail_events"
    by blast
  with True show ?thesis
    by (simp add: stage_poly_mesh_def Let_def log_fields tail_events_def)
next
  case False
  with assms show ?thesis
    by (auto simp add: stage_poly_mesh_def Let_def exit3_trace exit4_trace log_fields
        set_code_fields tail_events_def)
qed

lemma stage_contours_tail:
  assumes "hf s = Null"
  shows "\<exists>post. trace (stage_contours env s) = trace s @ post \<and> set post \<subseteq> tail_events"
proof (cases "rcAllocContourSet_ok env \<and> rcBuildContours_ok env")
  case True
  let ?s2 = "log (Call rcBuildContours) ((log (Alloc ContourSet) s)\<lparr>cset := Ptr ()\<rparr>)"
  have "hf ?s2 = Null"
    using assms by (simp add: log_fields)
  from stage_poly_mesh_tail [OF this, of env] obtain post
    where "trace (stage_poly_mesh env ?s2) = trace ?s2 @ post" "set post \<subseteq> tail_events"
    by blast
  with True show ?thesis
    by (simp add: stage_contours_def Let_def log_fields tail_events_def)
next
  case False
  with assms show ?thesis
    by (auto simp add: stage_contours_def Let_def exit2_trace exit3_trace log_fields
        set_code_fields tail_events_def)
qed


lemma stage_partition_tail:
  assumes "hf s = Null"
  shows "\<exists>post. trace (stage_partition env flags' s) = trace s @ post \<and>
           set post \<subseteq> partition_events \<union> tail_events"
proof -
  have c: "\<exists>post. trace (stage_contours env (s\<lparr>trace := trace s @ ps\<rparr>)) = trace s @ ps @ post
             \<and> set post \<subseteq> tail_events" for ps
    using stage_contours_tail [of "s\<lparr>trace := trace s @ ps\<rparr>" env] assms by simp
  have e: "trace (exit2 (set_code c' (s\<lparr>trace := trace s @ ps\<rparr>))) =
             trace s @ ps @ (if chf s \<noteq> Null then [Free CompactHeightfield] else [])" for c' ps
    using assms by (simp add: exit2_trace set_code_fields)
  show ?thesis
    using c [of "[Call rcBuildLayerRegions]"] c [of "[Call rcBuildRegionsMonotone]"]
      c [of "[Call rcBuildDistanceField, Call rcBuildRegions]"] c [of "[]"]
    by (auto simp add: stage_partition_def Let_def log_def e partition_events_def
        tail_events_def)
qed

subsection \<open>A run that ends with BCODE_OK went through every step\<close>

lemma stage_detail_ok:
  "code (result (stage_detail env s)) = BCODE_OK \<Longrightarrow>
   \<exists>s'. stage_detail env s = finish s' \<and> result s' = result s \<and>
     poly_mesh_local s' = poly_mesh_local s \<and>
     detail_mesh_local s' = Ptr (built_poly_mesh_detail env) \<and>
     (\<exists>mid. trace s' = trace s @ mid)"
  by (auto simp add: stage_detail_def Let_def exit_results log_fields set_code_fields
      split: if_splits)

lemma stage_poly_mesh_ok:
  "code (result (stage_poly_mesh env s)) = BCODE_OK \<Longrightarrow>
   \<exists>s'. stage_poly_mesh env s = finish s' \<and> result s' = result s \<and>
     poly_mesh_local s' = Ptr (built_poly_mesh env) \<and>
     detail_mesh_local s' = Ptr (built_poly_mesh_detail env) \<and>
     (\<exists>mid. trace s' = trace s @ mid)"
  by (auto simp add: stage_poly_mesh_def Let_def exit_results log_fields set_code_fields
      split: if_splits dest!: stage_detail_ok)

lemma stage_contours_ok:
  "code (result (stage_contours env s)) = BCODE_OK \<Longrightarrow>
   \<exists>s'. stage_contours env s = finish s' \<and> result s' = result s \<and>
     poly_mesh_local s' = Ptr (built_poly_mesh env) \<and>
     detail_mesh_local s' = Ptr (built_poly_mesh_detail env) \<and>
     (\<exists>mid. trace s' = trace s @ mid)"
  by (auto simp add: stage_contours_def Let_def exit_results log_fields set_code_fields
      split: if_splits dest!: stage_poly_mesh_ok)

lemma stage_partition_ok:
  "code (result (stage_partition env flags' s)) = BCODE_OK \<Longrightarrow>
   \<exists>s'. stage_partition env flags' s = finish s' \<and> result s' = result s \<and>
     poly_mesh_local s' = Ptr (built_poly_mesh env) \<and>
     detail_mesh_local s' = Ptr (built_poly_mesh_detail env) \<and>
     (\<exists>mid. trace s' = trace s @ mid)"
  by (auto simp add: stage_partition_def Let_def exit_results log_fields set_code_fields
      split: if_splits dest!: stage_contours_ok)

subsection \<open>Every exit releases the stage structures it holds\<close>

lemma tracked_set_code: "tracked (set_code c s) = tracked s"
  by (simp add: tracked_def pointed_def set_code_fields)

lemma tracked_call: "tracked (log (Call c) s) = tracked s"
  by (simp add: tracked_def pointed_def log_fields held_append well_formed_append)

lemma exit5_safe:
  "tracked s \<Longrightarrow>
   well_formed (trace (exit5 s)) {} \<and> held (trace (exit5 s)) {} \<inter> stage_resources = {}"
  unfolding tracked_def pointed_def stage_resources_def exit5_def exit4_def exit3_def exit2_def
    exit1_def log_def
  by (auto simp add: held_append well_formed_append split: if_splits)

lemma exit4_safe:
  "tracked s \<Longrightarrow> detail_mesh_local s = Null \<Longrightarrow>
   well_formed (trace (exit4 s)) {} \<and> held (trace (exit4 s)) {} \<inter> stage_resources = {}"
  using exit5_safe [of s] by (simp add: exit5_def)

lemma exit3_safe:
  "tracked s \<Longrightarrow> detail_mesh_local s = Null \<Longrightarrow> poly_mesh_local s = Null \<Longrightarrow>
   well_formed (trace (exit3 s)) {} \<and> held (trace (exit3 s)) {} \<inter> stage_resources = {}"
  using exit4_safe [of s] by (simp add: exit4_def)

lemma exit2_safe:
  "tracked s \<Longrightarrow> detail_mesh_local s = Null \<Longrightarrow> poly_mesh_local s = Null \<Longrightarrow>
   cset s = Null \<Longrightarrow>
   well_formed (trace (exit2 s)) {} \<and> held (trace (exit2 s)) {} \<inter> stage_resources = {}"
  using exit3_safe [of s] by (simp add: exit3_def)

lemma pointed_log: "pointed (log e s) = pointed s"
  by (simp add: pointed_def log_fields)

lemma pointed_mem:
  "Heightfield \<in> pointed s \<longleftrightarrow> hf s \<noteq> Null"
  "CompactHeightfield \<in> pointed s \<longleftrightarrow> chf s \<noteq> Null"
  "ContourSet \<in> pointed s \<longleftrightarrow> cset s \<noteq> Null"
  "PolyMesh \<in> pointed s \<longleftrightarrow> poly_mesh_local s \<noteq> Null"
  "PolyMeshDetail \<in> pointed s \<longleftrightarrow> detail_mesh_local s \<noteq> Null"
  "TriAreas \<notin> pointed s"
  "BulkResult \<notin> pointed s"
  by (simp_all add: pointed_def)

lemma pointed_alloc:
  "detail_mesh_local s = Null \<Longrightarrow>
     pointed (s\<lparr>detail_mesh_local := Ptr d\<rparr>) = insert PolyMeshDetail (pointed s)"
  "poly_mesh_local s = Null \<Longrightarrow>
     pointed (s\<lparr>poly_mesh_local := Ptr m\<rparr>) = insert PolyMesh (pointed s)"
  "cset s = Null \<Longrightarrow> pointed (s\<lparr>cset := Ptr u\<rparr>) = insert ContourSet (pointed s)"
  "chf s = Null \<Longrightarrow> pointed (s\<lparr>chf := Ptr u\<rparr>) = insert CompactHeightfield (pointed s)"
  by (simp_all add: pointed_def)

lemma stage_resources_mem:
  "Heightfield \<in> stage_resources" "CompactHeightfield \<in> stage_resources"
  "ContourSet \<in> stage_resources" "PolyMesh \<in> stage_resources"
  "PolyMeshDetail \<in> stage_resources" "TriAreas \<notin> stage_resources"
  "BulkResult \<notin> stage_resources"
  by (simp_all add: stage_resources_def)

lemma tracked_alloc:
  assumes "tracked s" and "r \<in> stage_resources" and "r \<notin> pointed s"
    and "pointed s' = insert r (pointed s)" and "trace s' = trace s @ [Alloc r]"
  shows "tracked s'"
proof -
  from assms have "r \<notin> held (trace s) {}"
    by (auto simp add: tracked_def)
  with assms show ?thesis
    by (simp add: tracked_def held_append well_formed_append)
qed

lemma tracked_alloc_detail:
  "tracked s \<Longrightarrow> detail_mesh_local s = Null \<Longrightarrow>
   tracked ((log (Alloc PolyMeshDetail) s)\<lparr>detail_mesh_local := Ptr d\<rparr>)"
  by (rule tracked_alloc [of s PolyMeshDetail])
     (simp_all add: stage_resources_mem pointed_mem pointed_alloc pointed_log log_fields)

lemma tracked_alloc_poly_mesh:
  "tracked s \<Longrightarrow> poly_mesh_local s = Null \<Longrightarrow>
   tracked ((log (Alloc PolyMesh) s)\<lparr>poly_mesh_local := Ptr d\<rparr>)"
  by (rule tracked_alloc [of s PolyMesh])
     (simp_all add: stage_resources_mem pointed_mem pointed_alloc pointed_log log_fields)

lemma tracked_alloc_cset:
  "tracked s \<Longrightarrow> cset s = Null \<Longrightarrow> tracked ((log (Alloc ContourSet) s)\<lparr>cset := Ptr d\<rparr>)"
  by (rule tracked_alloc [of s ContourSet])
     (simp_all add: stage_resources_mem pointed_mem pointed_alloc pointed_log log_fields)

lemma pointed_full:
  "hf s = Null \<Longrightarrow> chf s \<noteq> Null \<Longrightarrow> cset s \<noteq> Null \<Longrightarrow> poly_mesh_local s \<noteq> Null \<Longrightarrow>
   detail_mesh_local s \<noteq> Null \<Longrightarrow>
   pointed s = {CompactHeightfield, ContourSet, PolyMesh, PolyMeshDetail}"
  by (simp add: pointed_def insert_commute)

lemma finish_safe:
  assumes "tracked s" "hf s = Null" "chf s \<noteq> Null" "cset s \<noteq> Null"
    "poly_mesh_local s \<noteq> Null" "detail_mesh_local s \<noteq> Null"
  shows "safe_return (finish s)"
proof -
  let ?H = "held (trace s) {}"
  have p: "?H \<inter> stage_resources = {CompactHeightfield, ContourSet, PolyMesh, PolyMeshDetail}"
    using assms pointed_full [of s] by (simp add: tracked_def)
  then have m: "CompactHeightfield \<in> ?H" "ContourSet \<in> ?H"
    by blast+
  have "(?H - {CompactHeightfield} - {ContourSet}) \<inter> stage_resources =
          {PolyMesh, PolyMeshDetail}"
    using p by auto
  with m assms(1) show ?thesis
    by (simp add: safe_return_def finish_trace finish_result held_append well_formed_append
        tracked_def)
qed

lemma exit5_failed:
  "tracked s \<Longrightarrow> c \<noteq> BCODE_OK \<Longrightarrow> safe_return (exit5 (set_code c s))"
  using exit5_safe [of "set_code c s"]
  by (simp add: safe_return_def tracked_set_code exit_results set_code_fields)

lemma exit4_failed:
  "tracked s \<Longrightarrow> detail_mesh_local s = Null \<Longrightarrow> c \<noteq> BCODE_OK \<Longrightarrow>
   safe_return (exit4 (set_code c s))"
  using exit4_safe [of "set_code c s"]
  by (simp add: safe_return_def tracked_set_code exit_results set_code_fields)

lemma exit3_failed:
  "tracked s \<Longrightarrow> detail_mesh_local s = Null \<Longrightarrow> poly_mesh_local s = Null \<Longrightarrow>
   c \<noteq> BCODE_OK \<Longrightarrow> safe_return (exit3 (set_code c s))"
  using exit3_safe [of "set_code c s"]
  by (simp add: safe_return_def tracked_set_code exit_results set_code_fields)

lemma exit2_failed:
  "tracked s \<Longrightarrow> detail_mesh_local s = Null \<Longrightarrow> poly_mesh_local s = Null \<Longrightarrow>
   cset s = Null \<Longrightarrow> c \<noteq> BCODE_OK \<Longrightarrow> safe_return (exit2 (set_code c s))"
  using exit2_safe [of "set_code c s"]
  by (simp add: safe_return_def tracked_set_code exit_results set_code_fields)

lemma stage_detail_safe:
  assumes "tracked s" "hf s = Null" "chf s \<noteq> Null" "cset s \<noteq> Null"
    "poly_mesh_local s \<noteq> Null" "detail_mesh_local s = Null"
  shows "safe_return (stage_detail env s)"
proof -
  let ?s2 = "log (Call rcBuildPolyMeshDetail)
               ((log (Alloc PolyMeshDetail) s)
                  \<lparr>detail_mesh_local := Ptr (built_poly_mesh_detail env)\<rparr>)"
  have t: "tracked ?s2"
    using assms by (simp add: tracked_call tracked_alloc_detail)
  have "safe_return (finish ?s2)"
    using t assms by (intro finish_safe) (simp_all add: log_fields)
  moreover have "safe_return (exit5 (set_code BCODE_ERR_BUILD_DETAIL_POLY_MESH ?s2))"
    using t by (simp add: exit5_failed)
  moreover have "safe_return (exit4 (set_code BCODE_ERR_ALLOC_DETAIL_POLY_MESH s))"
    using assms by (simp add: exit4_failed)
  ultimately show ?thesis
    by (simp add: stage_detail_def Let_def)
qed

lemma stage_poly_mesh_safe:
  assumes "tracked s" "hf s = Null" "chf s \<noteq> Null" "cset s \<noteq> Null"
    "poly_mesh_local s = Null" "detail_mesh_local s = Null"
  shows "safe_return (stage_poly_mesh env s)"
proof -
  let ?s2 = "log (Call rcBuildPolyMesh)
               ((log (Alloc PolyMesh) s)\<lparr>poly_mesh_local := Ptr (built_poly_mesh env)\<rparr>)"
  have t: "tracked ?s2"
    using assms by (simp add: tracked_call tracked_alloc_poly_mesh)
  have "safe_return (stage_detail env ?s2)"
    using t assms by (intro stage_detail_safe) (simp_all add: log_fields)
  moreover have "safe_return (exit4 (set_code BCODE_ERR_BUILD_POLY_MESH ?s2))"
    using t assms by (simp add: exit4_failed log_fields)
  moreover have "safe_return (exit3 (set_code BCODE_ERR_ALLOC_POLYMESH s))"
    using assms by (simp add: exit3_failed)
  ultimately show ?thesis
    by (simp add: stage_poly_mesh_def Let_def)
qed

lemma stage_contours_safe:
  assumes "tracked s" "hf s = Null" "chf s \<noteq> Null" "cset s = Null"
    "poly_mesh_local s = Null" "detail_mesh_local s = Null"
  shows "safe_return (stage_contours env s)"
proof -
  let ?s2 = "log (Call rcBuildContours) ((log (Alloc ContourSet) s)\<lparr>cset := Ptr ()\<rparr>)"
  have t: "tracked ?s2"
    using assms by (simp add: tracked_call tracked_alloc_cset)
  have "safe_return (stage_poly_mesh env ?s2)"
    using t assms by (intro stage_poly_mesh_safe) (simp_all add: log_fields)
  moreover have "safe_return (exit3 (set_code BCODE_ERR_BUILD_CONTOUR ?s2))"
    using t assms by (simp add: exit3_failed log_fields)
  moreover have "safe_return (exit2 (set_code BCODE_ERR_ALLOC_CONTOUR s))"
    using assms by (simp add: exit2_failed)
  ultimately show ?thesis
    by (simp add: stage_contours_def Let_def)
qed

lemma stage_partition_safe:
  assumes "tracked s" "hf s = Null" "chf s \<noteq> Null" "cset s = Null"
    "poly_mesh_local s = Null" "detail_mesh_local s = Null"
  shows "safe_return (stage_partition env flags' s)"
proof -
  have c: "safe_return (stage_contours env s')"
    if "tracked s'" "hf s' = hf s" "chf s' = chf s" "cset s' = cset s"
      "poly_mesh_local s' = poly_mesh_local s" "detail_mesh_local s' = detail_mesh_local s"
    for s'
    using that assms by (intro stage_contours_safe) simp_all
  have e: "safe_return (exit2 (set_code c' s'))"
    if "tracked s'" "c' \<noteq> BCODE_OK" "cset s' = cset s"
      "poly_mesh_local s' = poly_mesh_local s" "detail_mesh_local s' = detail_mesh_local s"
    for s' c'
    using that assms by (intro exit2_failed) simp_all
  show ?thesis
    using assms(1)
    by (simp add: stage_partition_def Let_def c e tracked_call log_fields)
qed

subsection \<open>A run that gets to the partition step\<close>

lemma runBulk_reaching_partition:
  "reaches_partition env ntris' \<Longrightarrow>
   bindingRunBulk env cfg flags' ntris' =
     Some (Ptr (result (stage_partition env flags' (before_partition cfg flags'))),
           trace (stage_partition env flags' (before_partition cfg flags')))"
  by (simp add: reaches_partition_def bindingRunBulk_def stage_rasterize_def stage_filters_def
      stage_compact_def Let_def log_def before_partition_def initial_result_def)

lemma set_filter_calls:
  "set (filter_calls flags') \<subseteq>
     {Call rcFilterLowHangingWalkableObstacles, Call rcFilterLedgeSpans,
      Call rcFilterWalkableLowHeightSpans}"
  by (auto simp add: filter_calls_def)

lemma held_filter_calls: "held (filter_calls flags') H = H"
  by (simp add: filter_calls_def held_append)

lemma well_formed_filter_calls: "well_formed (filter_calls flags') H"
  by (simp add: filter_calls_def well_formed_append)





lemma tracked_before_partition: "tracked (before_partition cfg flags')"
  by (simp add: tracked_def before_partition_def pointed_def stage_resources_def held_append
      well_formed_append held_filter_calls well_formed_filter_calls)

lemma before_partition_safe:
  "safe_return (stage_partition env flags' (before_partition cfg flags'))"
  by (intro stage_partition_safe tracked_before_partition) (simp_all add: before_partition_def)

lemma before_partition_ok:
  assumes "code (result (stage_partition env flags' (before_partition cfg flags'))) = BCODE_OK"
  shows "\<exists>mid. trace (stage_partition env flags' (before_partition cfg flags')) =
           trace (before_partition cfg flags') @ mid @ [Free CompactHeightfield, Free ContourSet]"
    and "result (stage_partition env flags' (before_partition cfg flags')) =
           \<lparr> code = BCODE_OK, cs = rcConfig.cs cfg, ch = rcConfig.ch cfg,
             poly_mesh = Ptr (built_poly_mesh env),
             poly_mesh_detail = Ptr (built_poly_mesh_detail env),
             max_verts_per_poly = maxVertsPerPoly cfg \<rparr>"
proof -
  from stage_partition_ok [OF assms] obtain s' mid
    where s': "stage_partition env flags' (before_partition cfg flags') = finish s'"
      "result s' = result (before_partition cfg flags')"
      "poly_mesh_local s' = Ptr (built_poly_mesh env)"
      "detail_mesh_local s' = Ptr (built_poly_mesh_detail env)"
      "trace s' = trace (before_partition cfg flags') @ mid"
    by blast
  from s' show "\<exists>mid. trace (stage_partition env flags' (before_partition cfg flags')) =
           trace (before_partition cfg flags') @ mid @ [Free CompactHeightfield, Free ContourSet]"
    by (simp add: finish_trace)
  from s' show "result (stage_partition env flags' (before_partition cfg flags')) =
           \<lparr> code = BCODE_OK, cs = rcConfig.cs cfg, ch = rcConfig.ch cfg,
             poly_mesh = Ptr (built_poly_mesh env),
             poly_mesh_detail = Ptr (built_poly_mesh_detail env),
             max_verts_per_poly = maxVertsPerPoly cfg \<rparr>"
    by (simp add: finish_result before_partition_def initial_result_def)
qed

subsection \<open>The triangle areas\<close>

lemma runBulk_early_failure:
  assumes "bindingRunBulk env cfg flags' ntris' = Some (Ptr r, tr)"
    and "\<not> reaches_partition env ntris'"
  shows "code r \<noteq> BCODE_OK \<and> well_formed tr {} \<and> held tr {} \<inter> stage_resources = {} \<and>
         Free TriAreas \<notin> set tr"
  using assms set_filter_calls [of flags']
  by (auto simp add: reaches_partition_def bindingRunBulk_def stage_rasterize_def
      stage_compact_def stage_filters_def exit1_def exit2_def log_def set_code_def Let_def
      held_append well_formed_append held_filter_calls well_formed_filter_calls
      stage_resources_def split: if_splits)

lemma runBulk_stage_resources_safe:
  assumes "bindingRunBulk env cfg flags' ntris' = Some (Ptr r, tr)"
  shows "well_formed tr {} \<and>
         held tr {} \<inter> stage_resources =
           (if code r = BCODE_OK then {PolyMesh, PolyMeshDetail} else {})"
proof (cases "reaches_partition env ntris'")
  case True
  from runBulk_reaching_partition [OF True, of cfg flags'] assms
    before_partition_safe [of env flags' cfg]
  show ?thesis
    by (simp add: safe_return_def)
next
  case False
  from runBulk_early_failure [OF assms False] show ?thesis
    by simp
qed

lemma runBulk_never_frees_tri_areas:
  assumes "bindingRunBulk env cfg flags' ntris' = Some (p, tr)"
  shows "Free TriAreas \<notin> set tr"
proof (cases "reaches_partition env ntris'")
  case True
  let ?s = "before_partition cfg flags'"
  have "hf ?s = Null"
    by (simp add: before_partition_def)
  from stage_partition_tail [OF this, of env flags'] obtain post
    where "trace (stage_partition env flags' ?s) = trace ?s @ post"
      "set post \<subseteq> partition_events \<union> tail_events"
    by blast
  moreover have "Free TriAreas \<notin> set (trace ?s)"
    using set_filter_calls [of flags'] by (auto simp add: before_partition_def)
  ultimately show ?thesis
    using runBulk_reaching_partition [OF True, of cfg flags'] assms
    by (auto simp add: partition_events_def tail_events_def)
next
  case False
  show ?thesis
  proof (cases p)
    case Null
    with assms show ?thesis
      by (simp add: bindingRunBulk_def Let_def split: if_splits)
  next
    case (Ptr r)
    with assms runBulk_early_failure [of env cfg flags' ntris' r tr] False show ?thesis
      by simp
  qed
qed

lemma held_never_freed:
  "Alloc r \<in> set es \<or> r \<in> H \<Longrightarrow> Free r \<notin> set es \<Longrightarrow> r \<in> held es H"
  by (induction es H rule: held.induct) auto

lemma runBulk_leaks_tri_areas:
  assumes "bindingRunBulk env cfg flags' ntris' = Some (p, tr)"
    and "Alloc TriAreas \<in> set tr"
  shows "TriAreas \<in> held tr {}"
  using runBulk_never_frees_tri_areas [OF assms(1)] assms(2) by (simp add: held_never_freed)

subsection \<open>Runs on the concrete inputs\<close>

lemmas bulk_defs = bindingRunBulk_def stage_rasterize_def stage_filters_def filter_calls_def
  stage_compact_def stage_partition_def stage_contours_def stage_poly_mesh_def stage_detail_def
  finish_def exit1_def exit2_def exit3_def exit4_def exit5_def log_def set_code_def Let_def
  FILTER_LOW_HANGING_OBSTACLES_def FILTER_LEDGE_SPANS_def FILTER_WALKABLE_LOW_HEIGHT_SPANS_def
  PARTITION_MASK_def PARTITION_WATERSHED_def PARTITION_MONOTONE_def PARTITION_LAYER_def

lemma run_ok_0: "bindingRunBulk rc_env_ok quad_config 0 2 =
     Some (Ptr \<lparr> code = BCODE_OK, cs = 1, ch = 1 / 2, poly_mesh = Ptr quad_mesh,
                 poly_mesh_detail = Ptr quad_detail, max_verts_per_poly = 6 \<rparr>,
           [Alloc Heightfield, Alloc BulkResult, Call rcCreateHeightfield, Alloc TriAreas,
            Call rcMarkWalkableTriangles, Call rcRasterizeTriangles, Alloc CompactHeightfield,
            Call rcBuildCompactHeightfield, Free Heightfield, Call rcErodeWalkableArea,
            Call rcBuildLayerRegions, Alloc ContourSet, Call rcBuildContours, Alloc PolyMesh,
            Call rcBuildPolyMesh, Alloc PolyMeshDetail, Call rcBuildPolyMeshDetail,
            Free CompactHeightfield, Free ContourSet])"
  by (simp add: bulk_defs rc_env_ok_def quad_config_def)

subsection \<open>The claims about bindingRunBulk\<close>

text \<open>
  Claim C1, as the code has it. When the allocation of the heightfield and the \<open>calloc\<close>
  of the result record succeed, bindingRunBulk returns an envelope, and exactly one of
  the two holds for it: its status is \<open>BCODE_OK\<close> and both mesh pointers are non-null, or
  its status is not \<open>BCODE_OK\<close> and both mesh pointers are null.
\<close>

theorem runBulk_envelope:
  assumes "rcAllocHeightfield_ok env" and "calloc_result_ok env"
  shows "\<exists>r tr. bindingRunBulk env cfg flags' ntris' = Some (Ptr r, tr) \<and>
           ((code r = BCODE_OK \<and> poly_mesh r \<noteq> Null \<and> poly_mesh_detail r \<noteq> Null) \<or>
            (code r \<noteq> BCODE_OK \<and> poly_mesh r = Null \<and> poly_mesh_detail r = Null))"
proof -
  let ?s0 = "\<lparr> hf = Ptr (), chf = Null, cset = Null, poly_mesh_local = Null,
               detail_mesh_local = Null, result = initial_result cfg,
               trace = [Alloc Heightfield, Alloc BulkResult] \<rparr>"
  have "envelope_consistent (result (stage_rasterize env flags' ntris' ?s0))"
    by (rule stage_rasterize_consistent) (simp_all add: initial_result_def)
  with assms show ?thesis
    by (simp add: bindingRunBulk_def Let_def initial_result_def envelope_consistent_def)
qed

theorem runBulk_envelope_witness:
  "rcAllocHeightfield_ok rc_env_ok \<and> calloc_result_ok rc_env_ok \<and>
   (\<exists>r tr. bindingRunBulk rc_env_ok quad_config 0 2 = Some (Ptr r, tr) \<and>
      code r = BCODE_OK \<and> poly_mesh r \<noteq> Null \<and> poly_mesh_detail r \<noteq> Null)"
proof -
  have 1: "rcAllocHeightfield_ok rc_env_ok" and 2: "calloc_result_ok rc_env_ok"
    by (simp_all add: rc_env_ok_def)
  from runBulk_envelope [OF 1 2, of quad_config 0 2] obtain r tr
    where r: "bindingRunBulk rc_env_ok quad_config 0 2 = Some (Ptr r, tr)"
      "(code r = BCODE_OK \<and> poly_mesh r \<noteq> Null \<and> poly_mesh_detail r \<noteq> Null) \<or>
       (code r \<noteq> BCODE_OK \<and> poly_mesh r = Null \<and> poly_mesh_detail r = Null)"
    by blast
  have "code r = BCODE_OK"
    using r(1) by (simp add: bulk_defs rc_env_ok_def quad_config_def) auto
  with r 1 2 show ?thesis
    by blast
qed

text \<open>
  Claim C1, as stated, fails: a bake that cannot allocate the heightfield returns \<open>NULL\<close>,
  no envelope and no status (line 48); and a failed \<open>calloc\<close> of the result record is
  dereferenced (line 51).
\<close>

theorem runBulk_no_envelope_counterexample:
  "bindingRunBulk (rc_env_ok\<lparr>rcAllocHeightfield_ok := False\<rparr>) quad_config 0 2 = Some (Null, [])
   \<and> bindingRunBulk (rc_env_ok\<lparr>calloc_result_ok := False\<rparr>) quad_config 0 2 = None"
  by (simp add: bindingRunBulk_def rc_env_ok_def)

text \<open>
  Claim C2 on a run whose rasterization fails: the function returns
  \<open>BCODE_ERR_RASTERIZE\<close> after releasing the heightfield, and the triangle area array
  allocated at line 64 is still held (with the result record, which the caller gets).
  \<open>runBulk_never_frees_tri_areas\<close> and \<open>runBulk_leaks_tri_areas\<close> above say the same of
  every run, and \<open>runBulk_stage_resources_safe\<close> that the five stage structures are
  released exactly once on every failure.
\<close>

theorem runBulk_rasterize_failure_leaks_tri_areas:
  "bindingRunBulk (rc_env_ok\<lparr>rcRasterizeTriangles_ok := False\<rparr>) quad_config 0 2 =
     Some (Ptr \<lparr> code = BCODE_ERR_RASTERIZE, cs = 1, ch = 1 / 2, poly_mesh = Null,
                 poly_mesh_detail = Null, max_verts_per_poly = 6 \<rparr>,
           [Alloc Heightfield, Alloc BulkResult, Call rcCreateHeightfield, Alloc TriAreas,
            Call rcMarkWalkableTriangles, Call rcRasterizeTriangles, Free Heightfield])
   \<and> held [Alloc Heightfield, Alloc BulkResult, Call rcCreateHeightfield, Alloc TriAreas,
            Call rcMarkWalkableTriangles, Call rcRasterizeTriangles, Free Heightfield] {} =
       {TriAreas, BulkResult}"
proof (intro conjI)
  show "bindingRunBulk (rc_env_ok\<lparr>rcRasterizeTriangles_ok := False\<rparr>) quad_config 0 2 =
     Some (Ptr \<lparr> code = BCODE_ERR_RASTERIZE, cs = 1, ch = 1 / 2, poly_mesh = Null,
                 poly_mesh_detail = Null, max_verts_per_poly = 6 \<rparr>,
           [Alloc Heightfield, Alloc BulkResult, Call rcCreateHeightfield, Alloc TriAreas,
            Call rcMarkWalkableTriangles, Call rcRasterizeTriangles, Free Heightfield])"
    by (simp add: bulk_defs rc_env_ok_def quad_config_def)
  show "held [Alloc Heightfield, Alloc BulkResult, Call rcCreateHeightfield, Alloc TriAreas,
            Call rcMarkWalkableTriangles, Call rcRasterizeTriangles, Free Heightfield] {} =
       {TriAreas, BulkResult}"
    by auto
qed




text \<open>
  Claim C8. In every run in which the compact heightfield is built, the heightfield is
  released right after \<open>rcBuildCompactHeightfield\<close> and right before
  \<open>rcErodeWalkableArea\<close>: only events of the earlier steps come before, the partition
  and the later steps come after, and nothing is released twice. When such a run
  returns \<open>BCODE_OK\<close>, its last two events release the compact heightfield and the contour
  set, the result record holds the two meshes and the copies of \<open>cs\<close>, \<open>ch\<close> and
  \<open>maxVertsPerPoly\<close> of the configuration, and of the five stage structures exactly the
  polygon mesh and the detail mesh are still allocated. (A run returns \<open>BCODE_OK\<close> only
  if it got to the partition step: \<open>runBulk_early_failure\<close>.)
\<close>

theorem runBulk_staged_release:
  assumes "reaches_partition env ntris'"
  shows "\<exists>r pre post.
           bindingRunBulk env cfg flags' ntris' =
             Some (Ptr r, pre @ [Call rcBuildCompactHeightfield, Free Heightfield,
                                 Call rcErodeWalkableArea] @ post) \<and>
           set pre \<subseteq> early_events \<and> set post \<subseteq> partition_events \<union> tail_events \<and>
           well_formed (pre @ [Call rcBuildCompactHeightfield, Free Heightfield,
                               Call rcErodeWalkableArea] @ post) {} \<and>
           (code r = BCODE_OK \<longrightarrow>
              (\<exists>mid. post = mid @ [Free CompactHeightfield, Free ContourSet]) \<and>
              r = \<lparr> code = BCODE_OK, cs = rcConfig.cs cfg, ch = rcConfig.ch cfg,
                    poly_mesh = Ptr (built_poly_mesh env),
                    poly_mesh_detail = Ptr (built_poly_mesh_detail env),
                    max_verts_per_poly = maxVertsPerPoly cfg \<rparr> \<and>
              held (pre @ [Call rcBuildCompactHeightfield, Free Heightfield,
                           Call rcErodeWalkableArea] @ post) {} \<inter> stage_resources =
                {PolyMesh, PolyMeshDetail})"
proof -
  let ?s = "before_partition cfg flags'"
  let ?f = "stage_partition env flags' ?s"
  let ?pre = "[Alloc Heightfield, Alloc BulkResult, Call rcCreateHeightfield, Alloc TriAreas,
               Call rcMarkWalkableTriangles, Call rcRasterizeTriangles] @
              filter_calls flags' @ [Alloc CompactHeightfield]"
  let ?mid = "[Call rcBuildCompactHeightfield, Free Heightfield, Call rcErodeWalkableArea]"
  have "hf ?s = Null"
    by (simp add: before_partition_def)
  from stage_partition_tail [OF this, of env flags'] obtain post
    where p: "trace ?f = trace ?s @ post" "set post \<subseteq> partition_events \<union> tail_events"
    by blast
  have t: "trace ?s = ?pre @ ?mid"
    by (simp add: before_partition_def)
  have run: "bindingRunBulk env cfg flags' ntris' = Some (Ptr (result ?f), ?pre @ ?mid @ post)"
    using runBulk_reaching_partition [OF assms, of cfg flags'] p(1) t by simp
  have pre: "set ?pre \<subseteq> early_events"
    using set_filter_calls [of flags'] by (auto simp add: early_events_def)
  have safe: "safe_return ?f"
    by (rule before_partition_safe)
  then have wf: "well_formed (?pre @ ?mid @ post) {}"
    using p(1) t by (simp add: safe_return_def)
  have ok: "(\<exists>mid. post = mid @ [Free CompactHeightfield, Free ContourSet]) \<and>
            result ?f = \<lparr> code = BCODE_OK, cs = rcConfig.cs cfg, ch = rcConfig.ch cfg,
                    poly_mesh = Ptr (built_poly_mesh env),
                    poly_mesh_detail = Ptr (built_poly_mesh_detail env),
                    max_verts_per_poly = maxVertsPerPoly cfg \<rparr> \<and>
            held (?pre @ ?mid @ post) {} \<inter> stage_resources = {PolyMesh, PolyMeshDetail}"
    if c: "code (result ?f) = BCODE_OK"
  proof -
    from before_partition_ok(1) [OF c] p(1) have "\<exists>mid. post = mid @ [Free CompactHeightfield, Free ContourSet]"
      by simp
    moreover note before_partition_ok(2) [OF c]
    moreover from safe c p(1) t
    have "held (?pre @ ?mid @ post) {} \<inter> stage_resources = {PolyMesh, PolyMeshDetail}"
      by (simp add: safe_return_def)
    ultimately show ?thesis
      by blast
  qed
  from run pre p(2) wf ok show ?thesis
    by blast
qed

theorem runBulk_staged_release_witness:
  "reaches_partition rc_env_ok 2 \<and>
   (\<exists>r pre post.
      bindingRunBulk rc_env_ok quad_config 0 2 =
        Some (Ptr r, pre @ [Call rcBuildCompactHeightfield, Free Heightfield,
                            Call rcErodeWalkableArea] @ post) \<and>
      code r = BCODE_OK \<and>
      (\<exists>mid. post = mid @ [Free CompactHeightfield, Free ContourSet]) \<and>
      r = \<lparr> code = BCODE_OK, cs = 1, ch = 1 / 2, poly_mesh = Ptr quad_mesh,
            poly_mesh_detail = Ptr quad_detail, max_verts_per_poly = 6 \<rparr> \<and>
      held (pre @ [Call rcBuildCompactHeightfield, Free Heightfield,
                   Call rcErodeWalkableArea] @ post) {} \<inter> stage_resources =
        {PolyMesh, PolyMeshDetail})"
proof -
  have r1: "reaches_partition rc_env_ok 2"
    by (simp add: reaches_partition_def rc_env_ok_def)
  from runBulk_staged_release [OF r1, of quad_config 0] obtain r pre post
    where run: "bindingRunBulk rc_env_ok quad_config 0 2 =
             Some (Ptr r, pre @ [Call rcBuildCompactHeightfield, Free Heightfield,
                                 Call rcErodeWalkableArea] @ post)"
      and ok: "code r = BCODE_OK \<longrightarrow>
              (\<exists>mid. post = mid @ [Free CompactHeightfield, Free ContourSet]) \<and>
              r = \<lparr> code = BCODE_OK, cs = rcConfig.cs quad_config, ch = rcConfig.ch quad_config,
                    poly_mesh = Ptr (built_poly_mesh rc_env_ok),
                    poly_mesh_detail = Ptr (built_poly_mesh_detail rc_env_ok),
                    max_verts_per_poly = maxVertsPerPoly quad_config \<rparr> \<and>
              held (pre @ [Call rcBuildCompactHeightfield, Free Heightfield,
                           Call rcErodeWalkableArea] @ post) {} \<inter> stage_resources =
                {PolyMesh, PolyMeshDetail}"
    by blast
  have c: "code r = BCODE_OK"
    using run by (auto simp add: run_ok_0)
  from ok c have "(\<exists>mid. post = mid @ [Free CompactHeightfield, Free ContourSet]) \<and>
      r = \<lparr> code = BCODE_OK, cs = 1, ch = 1 / 2, poly_mesh = Ptr quad_mesh,
            poly_mesh_detail = Ptr quad_detail, max_verts_per_poly = 6 \<rparr> \<and>
      held (pre @ [Call rcBuildCompactHeightfield, Free Heightfield,
                   Call rcErodeWalkableArea] @ post) {} \<inter> stage_resources =
        {PolyMesh, PolyMeshDetail}"
    by (simp add: rc_env_ok_def quad_config_def)
  with r1 run c show ?thesis
    by blast
qed

section \<open>Properties of bindingExtractVertsAndTriangles\<close>

subsection \<open>One iteration of each loop\<close>

text \<open>The recursive equations are taken out of the simplifier; the loops are unfolded one
  iteration at a time.\<close>

declare count_poly.simps [simp del] count_polys.simps [simp del]
  transform_verts.simps [simp del] emit_poly.simps [simp del] emit_polys.simps [simp del]
  emitted_poly.simps [simp del] emitted_polys.simps [simp del]

lemma count_poly_done: "\<not> j < nvp' \<Longrightarrow> count_poly null_idx ps base nvp' j nt = Some nt"
  by (subst count_poly.simps) simp

lemma count_poly_stop:
  "j < nvp' \<Longrightarrow> rd ps (base + j) = Some null_idx \<Longrightarrow>
   count_poly null_idx ps base nvp' j nt = Some nt"
  by (subst count_poly.simps) simp

lemma count_poly_step:
  "j < nvp' \<Longrightarrow> rd ps (base + j) = Some pj \<Longrightarrow> pj \<noteq> null_idx \<Longrightarrow>
   count_poly null_idx ps base nvp' j nt =
     ck (nt + 3) \<bind> count_poly null_idx ps base nvp' (j + 1)"
  by (subst count_poly.simps) simp

lemma count_poly_fault:
  "j < nvp' \<Longrightarrow> rd ps (base + j) = None \<Longrightarrow> count_poly null_idx ps base nvp' j nt = None"
  by (subst count_poly.simps) simp

lemma count_polys_done:
  "\<not> i < npolys' \<Longrightarrow> count_polys null_idx ps nvp' npolys' i nt = Some nt"
  by (subst count_polys.simps) simp

lemma count_polys_step:
  "i < npolys' \<Longrightarrow>
   count_polys null_idx ps nvp' npolys' i nt =
     ck (i * nvp') \<bind> (\<lambda>inv. ck (inv * 2) \<bind> (\<lambda>base.
       count_poly null_idx ps base nvp' 2 nt \<bind>
       count_polys null_idx ps nvp' npolys' (i + 1)))"
  by (subst count_polys.simps) simp

lemma emit_poly_done:
  "\<not> j < nvp' \<Longrightarrow> emit_poly null_idx ps base nvp' j (buf, k) = Some (buf, k)"
  by (subst emit_poly.simps) simp

lemma emit_poly_stop:
  "j < nvp' \<Longrightarrow> rd ps (base + j) = Some null_idx \<Longrightarrow>
   emit_poly null_idx ps base nvp' j (buf, k) = Some (buf, k)"
  by (subst emit_poly.simps) simp

lemma emit_poly_step:
  "j < nvp' \<Longrightarrow> rd ps (base + j) = Some pj \<Longrightarrow> pj \<noteq> null_idx \<Longrightarrow>
   emit_poly null_idx ps base nvp' j (buf, k) =
     rd ps base \<bind> (\<lambda>p0. wr buf k (ucast p0) \<bind> (\<lambda>b1. ck (k + 1) \<bind> (\<lambda>k1.
     rd ps (base + (j - 1)) \<bind> (\<lambda>pj1. wr b1 k1 (ucast pj1) \<bind> (\<lambda>b2. ck (k1 + 1) \<bind> (\<lambda>k2.
     wr b2 k2 (ucast pj) \<bind> (\<lambda>b3. ck (k2 + 1) \<bind> (\<lambda>k3.
     emit_poly null_idx ps base nvp' (j + 1) (b3, k3)))))))))"
  by (subst emit_poly.simps) simp

lemma emit_polys_done:
  "\<not> i < npolys' \<Longrightarrow> emit_polys null_idx ps nvp' npolys' i (buf, k) = Some (buf, k)"
  by (subst emit_polys.simps) simp

lemma emit_polys_step:
  "i < npolys' \<Longrightarrow>
   emit_polys null_idx ps nvp' npolys' i (buf, k) =
     ck (i * nvp') \<bind> (\<lambda>inv. ck (inv * 2) \<bind> (\<lambda>base.
       emit_poly null_idx ps base nvp' 2 (buf, k) \<bind>
       emit_polys null_idx ps nvp' npolys' (i + 1)))"
  by (subst emit_polys.simps) simp

lemma emitted_poly_done: "\<not> j < nvp' \<Longrightarrow> emitted_poly null_idx ps base nvp' j = Some []"
  by (subst emitted_poly.simps) simp

lemma emitted_poly_stop:
  "j < nvp' \<Longrightarrow> rd ps (base + j) = Some null_idx \<Longrightarrow>
   emitted_poly null_idx ps base nvp' j = Some []"
  by (subst emitted_poly.simps) simp

lemma emitted_poly_step:
  "j < nvp' \<Longrightarrow> rd ps (base + j) = Some pj \<Longrightarrow> pj \<noteq> null_idx \<Longrightarrow>
   emitted_poly null_idx ps base nvp' j =
     rd ps base \<bind> (\<lambda>p0. rd ps (base + (j - 1)) \<bind> (\<lambda>pj1.
     emitted_poly null_idx ps base nvp' (j + 1) \<bind> (\<lambda>rest.
     Some ((ucast p0, ucast pj1, ucast pj) # rest))))"
  by (subst emitted_poly.simps) simp

lemma emitted_poly_fault:
  "j < nvp' \<Longrightarrow> rd ps (base + j) = None \<Longrightarrow> emitted_poly null_idx ps base nvp' j = None"
  by (subst emitted_poly.simps) simp

lemma emitted_polys_done:
  "\<not> i < npolys' \<Longrightarrow> emitted_polys null_idx ps nvp' npolys' i = Some []"
  by (subst emitted_polys.simps) simp

lemma emitted_polys_step:
  "i < npolys' \<Longrightarrow>
   emitted_polys null_idx ps nvp' npolys' i =
     ck (i * nvp') \<bind> (\<lambda>inv. ck (inv * 2) \<bind> (\<lambda>base.
       emitted_poly null_idx ps base nvp' 2 \<bind> (\<lambda>ts.
       emitted_polys null_idx ps nvp' npolys' (i + 1) \<bind> (\<lambda>rest. Some (ts @ rest)))))"
  by (subst emitted_polys.simps) simp

lemma ck_Some: "ck n = Some m \<longleftrightarrow> m = n \<and> INT_MIN \<le> n \<and> n \<le> INT_MAX"
  by (auto simp add: ck_def)

lemma rd_Some: "rd xs i = Some v \<longleftrightarrow> 0 \<le> i \<and> i < int (length xs) \<and> v = xs ! nat i"
  by (auto simp add: rd_def)

lemma wr_Some: "wr xs i v = Some ys \<longleftrightarrow> 0 \<le> i \<and> i < int (length xs) \<and> ys = xs[nat i := v]"
  by (auto simp add: wr_def)

lemma length_flat: "length (flat ts) = 3 * length ts"
  by (induction ts rule: flat.induct) simp_all

lemma flat_append: "flat (ts @ us) = flat ts @ flat us"
  by (induction ts rule: flat.induct) simp_all

lemma take_three_updates:
  assumes "n + 3 \<le> length xs"
  shows "take (n + 3) (xs[n := a, Suc n := b, Suc (Suc n) := c]) = take n xs @ [a, b, c]"
proof -
  have "take (Suc (Suc (Suc n))) (xs[n := a, Suc n := b, Suc (Suc n) := c]) =
        take n xs @ [a, b, c]"
    using assms by (simp add: take_Suc_conv_app_nth)
  then show ?thesis
    by (simp add: numeral_3_eq_3)
qed

lemma drop_three_updates:
  "drop (n + 3 + m) (xs[n := a, Suc n := b, Suc (Suc n) := c]) = drop (n + 3 + m) xs"
  by simp

lemma emit_poly_emitted:
  assumes "emitted_poly null_idx ps base nvp' j = Some ts"
    and "0 \<le> k" and "k + 3 * int (length ts) \<le> int (length buf)"
    and "int (length buf) \<le> INT_MAX"
  shows "emit_poly null_idx ps base nvp' j (buf, k) =
           Some (take (nat k) buf @ flat ts @ drop (nat k + 3 * length ts) buf,
                 k + 3 * int (length ts))"
  using assms
proof (induction null_idx ps base nvp' j arbitrary: ts buf k rule: emitted_poly.induct)
  case (1 null_idx ps base nvp' j)
  show ?case
  proof (cases "j < nvp'")
    case False
    with "1.prems" show ?thesis
      by (simp add: emitted_poly_done emit_poly_done)
  next
    case True
    with "1.prems"(1) obtain pj where pj: "rd ps (base + j) = Some pj"
      by (cases "rd ps (base + j)") (simp_all add: emitted_poly_fault)
    show ?thesis
    proof (cases "pj = null_idx")
      case stop: True
      with True pj "1.prems" show ?thesis
        by (simp add: emitted_poly_stop emit_poly_stop)
    next
      case go: False
      from "1.prems"(1) obtain p0 pj1 rest
        where r: "rd ps base = Some p0" "rd ps (base + (j - 1)) = Some pj1"
          "emitted_poly null_idx ps base nvp' (j + 1) = Some rest"
          "ts = (ucast p0, ucast pj1, ucast pj) # rest"
        unfolding emitted_poly_step [OF True pj go] by (auto simp add: bind_eq_Some_conv)
      let ?b3 = "buf[nat k := ucast p0, Suc (nat k) := ucast pj1,
                     Suc (Suc (nat k)) := ucast pj]"
      have len: "nat k + 3 + 3 * length rest \<le> length buf"
        using "1.prems"(2,3) r(4) by simp
      have k3: "0 \<le> k + 3" "k + 3 + 3 * int (length rest) \<le> int (length ?b3)"
        "int (length ?b3) \<le> INT_MAX"
        using "1.prems"(2,3,4) r(4) by simp_all
      have ih: "emit_poly null_idx ps base nvp' (j + 1) (?b3, k + 3) =
           Some (take (nat (k + 3)) ?b3 @ flat rest @ drop (nat (k + 3) + 3 * length rest) ?b3,
                 k + 3 + 3 * int (length rest))"
        using "1.IH" [OF True pj go r(1) r(2) r(3) k3] .
      have n3: "nat (k + 3) = nat k + 3" "nat (k + 1) = Suc (nat k)"
        "nat (k + 2) = Suc (Suc (nat k))"
        using "1.prems"(2) by simp_all
      have tk: "take (nat k + 3) ?b3 = take (nat k) buf @ [ucast p0, ucast pj1, ucast pj]"
        using len by (intro take_three_updates) simp
      have dr: "drop (nat k + 3 + 3 * length rest) ?b3 = drop (nat k + 3 + 3 * length rest) buf"
        by (rule drop_three_updates)
      have w: "wr buf k (ucast p0) = Some (buf[nat k := ucast p0])"
        "wr (buf[nat k := ucast p0]) (k + 1) (ucast pj1) =
           Some (buf[nat k := ucast p0, Suc (nat k) := ucast pj1])"
        "wr (buf[nat k := ucast p0, Suc (nat k) := ucast pj1]) (k + 2) (ucast pj) = Some ?b3"
        using "1.prems"(2) len by (simp_all add: wr_def n3)
      have c: "ck (k + 1) = Some (k + 1)" "ck (k + 1 + 1) = Some (k + 2)"
        "ck (k + 2 + 1) = Some (k + 3)"
        using "1.prems"(2,4) len by (simp_all add: ck_def INT_MIN_def)
      have "emit_poly null_idx ps base nvp' j (buf, k) =
              emit_poly null_idx ps base nvp' (j + 1) (?b3, k + 3)"
        unfolding emit_poly_step [OF True pj go] using r(1,2) w c by simp
      also note ih
      finally show ?thesis
        unfolding n3 tk dr r(4) by (simp add: add.assoc)
    qed
  qed
qed

lemma emit_polys_emitted:
  assumes "emitted_polys null_idx ps nvp' npolys' i = Some ts"
    and "0 \<le> k" and "k + 3 * int (length ts) \<le> int (length buf)"
    and "int (length buf) \<le> INT_MAX"
  shows "emit_polys null_idx ps nvp' npolys' i (buf, k) =
           Some (take (nat k) buf @ flat ts @ drop (nat k + 3 * length ts) buf,
                 k + 3 * int (length ts))"
  using assms
proof (induction null_idx ps nvp' npolys' i arbitrary: ts buf k rule: emitted_polys.induct)
  case (1 null_idx ps nvp' npolys' i)
  show ?case
  proof (cases "i < npolys'")
    case False
    with "1.prems" show ?thesis
      by (simp add: emitted_polys_done emit_polys_done)
  next
    case True
    from "1.prems"(1) obtain inv base ts1 rest
      where r: "ck (i * nvp') = Some inv" "ck (inv * 2) = Some base"
        "emitted_poly null_idx ps base nvp' 2 = Some ts1"
        "emitted_polys null_idx ps nvp' npolys' (i + 1) = Some rest"
        "ts = ts1 @ rest"
      unfolding emitted_polys_step [OF True] by (auto simp add: bind_eq_Some_conv)
    let ?b1 = "take (nat k) buf @ flat ts1 @ drop (nat k + 3 * length ts1) buf"
    let ?k1 = "k + 3 * int (length ts1)"
    have len: "nat k + 3 * length ts1 + 3 * length rest \<le> length buf"
      using "1.prems"(2,3) r(5) by simp
    have e1: "emit_poly null_idx ps base nvp' 2 (buf, k) = Some (?b1, ?k1)"
      using "1.prems"(2,3,4) r(5) by (intro emit_poly_emitted [OF r(3)]) simp_all
    have lb: "length ?b1 = length buf"
      using len by (simp add: length_flat)
    have k1: "0 \<le> ?k1" "?k1 + 3 * int (length rest) \<le> int (length ?b1)"
      "int (length ?b1) \<le> INT_MAX"
      using "1.prems"(2,3,4) r(5) lb by simp_all
    have ih: "emit_polys null_idx ps nvp' npolys' (i + 1) (?b1, ?k1) =
           Some (take (nat ?k1) ?b1 @ flat rest @ drop (nat ?k1 + 3 * length rest) ?b1,
                 ?k1 + 3 * int (length rest))"
      using "1.IH" [OF True r(1) r(2) r(3) r(4) k1] .
    have nk: "nat ?k1 = nat k + 3 * length ts1"
      using "1.prems"(2) by (simp add: nat_add_distrib nat_mult_distrib)
    have lt: "length (take (nat k) buf) = nat k"
      using len by simp
    have tk: "take (nat k + 3 * length ts1) ?b1 = take (nat k) buf @ flat ts1"
      using lt by (simp add: length_flat)
    have dr: "drop (nat k + 3 * length ts1 + 3 * length rest) ?b1 =
              drop (nat k + 3 * length ts1 + 3 * length rest) buf"
      using lt len by (simp add: length_flat add.commute)
    have "emit_polys null_idx ps nvp' npolys' i (buf, k) =
            emit_polys null_idx ps nvp' npolys' (i + 1) (?b1, ?k1)"
      unfolding emit_polys_step [OF True] using r(1,2) e1 by simp
    also note ih
    finally show ?thesis
      unfolding nk tk dr r(5) flat_append by (simp add: add.assoc)
  qed
qed

lemma count_poly_emitted:
  assumes "count_poly null_idx ps base nvp' j nt = Some nt'"
    and "0 \<le> base \<or> nvp' \<le> j" and "1 \<le> j"
  shows "\<exists>ts. emitted_poly null_idx ps base nvp' j = Some ts \<and>
              nt' = nt + 3 * int (length ts)"
  using assms
proof (induction null_idx ps base nvp' j nt arbitrary: nt' rule: count_poly.induct)
  case (1 null_idx ps base nvp' j nt)
  show ?case
  proof (cases "j < nvp'")
    case False
    with "1.prems" show ?thesis
      by (simp add: count_poly_done emitted_poly_done)
  next
    case True
    with "1.prems"(1) obtain pj where pj: "rd ps (base + j) = Some pj"
      by (cases "rd ps (base + j)") (simp_all add: count_poly_fault)
    show ?thesis
    proof (cases "pj = null_idx")
      case stop: True
      with True pj "1.prems" show ?thesis
        by (simp add: count_poly_stop emitted_poly_stop)
    next
      case go: False
      from "1.prems"(1) obtain n1
        where n1: "ck (nt + 3) = Some n1" "count_poly null_idx ps base nvp' (j + 1) n1 = Some nt'"
        unfolding count_poly_step [OF True pj go] by (auto simp add: bind_eq_Some_conv)
      have b: "0 \<le> base"
        using True "1.prems"(2) by simp
      from "1.IH" [OF True pj go n1(1) n1(2)] "1.prems"(2,3) obtain rest
        where rest: "emitted_poly null_idx ps base nvp' (j + 1) = Some rest"
          "nt' = n1 + 3 * int (length rest)"
        by auto
      have r0: "rd ps base = Some (ps ! nat base)"
        and r1: "rd ps (base + (j - 1)) = Some (ps ! nat (base + (j - 1)))"
        using pj b "1.prems"(3) by (simp_all add: rd_def split: if_splits)
      have "emitted_poly null_idx ps base nvp' j =
              Some ((ucast (ps ! nat base), ucast (ps ! nat (base + (j - 1))), ucast pj) # rest)"
        unfolding emitted_poly_step [OF True pj go] using r0 r1 rest(1) by simp
      moreover have "n1 = nt + 3"
        using n1(1) by (simp add: ck_Some)
      ultimately show ?thesis
        using rest(2) by simp
    qed
  qed
qed

lemma count_polys_emitted:
  assumes "count_polys null_idx ps nvp' npolys' i nt = Some nt'" and "0 \<le> i"
  shows "\<exists>ts. emitted_polys null_idx ps nvp' npolys' i = Some ts \<and>
              nt' = nt + 3 * int (length ts)"
  using assms
proof (induction null_idx ps nvp' npolys' i nt arbitrary: nt' rule: count_polys.induct)
  case (1 null_idx ps nvp' npolys' i nt)
  show ?case
  proof (cases "i < npolys'")
    case False
    with "1.prems" show ?thesis
      by (simp add: count_polys_done emitted_polys_done)
  next
    case True
    from "1.prems"(1) obtain inv base n1
      where r: "ck (i * nvp') = Some inv" "ck (inv * 2) = Some base"
        "count_poly null_idx ps base nvp' 2 nt = Some n1"
        "count_polys null_idx ps nvp' npolys' (i + 1) n1 = Some nt'"
      unfolding count_polys_step [OF True] by (auto simp add: bind_eq_Some_conv)
    have base: "base = i * nvp' * 2"
      using r(1,2) by (simp add: ck_Some)
    have "0 \<le> base \<or> nvp' \<le> 2"
    proof (cases "nvp' \<le> 2")
      case False
      then have "0 \<le> i * nvp'"
        using "1.prems"(2) by simp
      then show ?thesis
        by (simp add: base)
    qed simp
    from count_poly_emitted [OF r(3) this] obtain ts1
      where ts1: "emitted_poly null_idx ps base nvp' 2 = Some ts1"
        "n1 = nt + 3 * int (length ts1)"
      by auto
    from "1.IH" [OF True r(1) r(2) r(3) r(4)] "1.prems"(2) obtain rest
      where rest: "emitted_polys null_idx ps nvp' npolys' (i + 1) = Some rest"
        "nt' = n1 + 3 * int (length rest)"
      by auto
    have "emitted_polys null_idx ps nvp' npolys' i = Some (ts1 @ rest)"
      unfolding emitted_polys_step [OF True] using r(1,2) ts1(1) rest(1) by simp
    with ts1(2) rest(2) show ?thesis
      by simp
  qed
qed

lemma count_poly_bound:
  "count_poly null_idx ps base nvp' j nt = Some nt' \<Longrightarrow> nt \<le> INT_MAX \<Longrightarrow> nt' \<le> INT_MAX"
proof (induction null_idx ps base nvp' j nt arbitrary: nt' rule: count_poly.induct)
  case (1 null_idx ps base nvp' j nt)
  show ?case
  proof (cases "j < nvp'")
    case False
    with "1.prems" show ?thesis
      by (simp add: count_poly_done emitted_poly_done)
  next
    case True
    with "1.prems"(1) obtain pj where pj: "rd ps (base + j) = Some pj"
      by (cases "rd ps (base + j)") (simp_all add: count_poly_fault)
    show ?thesis
    proof (cases "pj = null_idx")
      case stop: True
      with True pj "1.prems" show ?thesis
        by (simp add: count_poly_stop emitted_poly_stop)
    next
      case go: False
      from "1.prems"(1) obtain n1
        where n1: "ck (nt + 3) = Some n1" "count_poly null_idx ps base nvp' (j + 1) n1 = Some nt'"
        unfolding count_poly_step [OF True pj go] by (auto simp add: bind_eq_Some_conv)
      from n1(1) have "n1 \<le> INT_MAX"
        by (simp add: ck_Some)
      with "1.IH" [OF True pj go n1(1) n1(2)] show ?thesis
        by simp
    qed
  qed
qed

lemma count_polys_bound:
  "count_polys null_idx ps nvp' npolys' i nt = Some nt' \<Longrightarrow> nt \<le> INT_MAX \<Longrightarrow>
   nt' \<le> INT_MAX"
proof (induction null_idx ps nvp' npolys' i nt arbitrary: nt' rule: count_polys.induct)
  case (1 null_idx ps nvp' npolys' i nt)
  show ?case
  proof (cases "i < npolys'")
    case False
    with "1.prems" show ?thesis
      by (simp add: count_polys_done emitted_polys_done)
  next
    case True
    from "1.prems"(1) obtain inv base n1
      where r: "ck (i * nvp') = Some inv" "ck (inv * 2) = Some base"
        "count_poly null_idx ps base nvp' 2 nt = Some n1"
        "count_polys null_idx ps nvp' npolys' (i + 1) n1 = Some nt'"
      unfolding count_polys_step [OF True] by (auto simp add: bind_eq_Some_conv)
    from count_poly_bound [OF r(3) "1.prems"(2)] "1.IH" [OF True r(1) r(2) r(3) r(4)]
    show ?thesis
      by simp
  qed
qed

subsection \<open>What a returned mesh was computed from\<close>

lemma extract_returns:
  assumes "bindingExtractVertsAndTriangles fo null_idx env bbr = Some (Ptr m)"
  shows "\<exists>pm n4 kv kt.
           deref (poly_mesh bbr) = Some pm \<and>
           ck (rcPolyMesh.nverts pm * 4) = Some n4 \<and> 0 \<le> n4 \<and>
           count_polys null_idx (rcPolyMesh.polys pm) (rcPolyMesh.nvp pm) (npolys pm) 0 0 =
             Some (ntris m) \<and>
           transform_verts fo pm 0 (replicate (nat n4) (fint fo 0), 0) =
             Some (BindingVertsAndTriangles.verts m, kv) \<and>
           emit_polys null_idx (rcPolyMesh.polys pm) (rcPolyMesh.nvp pm) (npolys pm) 0
               (replicate (nat (ntris m)) 0, 0) = Some (triangles m, kt) \<and>
           BindingVertsAndTriangles.nverts m = rcPolyMesh.nverts pm"
  using assms
  by (auto simp add: bindingExtractVertsAndTriangles_def bind_eq_Some_conv
      split: if_splits prod.splits)

lemma sizing_then_emission:
  assumes "count_polys null_idx ps nvp' npolys' 0 0 = Some nt"
  shows "\<exists>ts. emitted_polys null_idx ps nvp' npolys' 0 = Some ts \<and> nt = 3 * int (length ts) \<and>
           (\<forall>buf. length buf = nat nt \<longrightarrow>
              emit_polys null_idx ps nvp' npolys' 0 (buf, 0) = Some (flat ts, nt))"
proof -
  from count_polys_emitted [OF assms] obtain ts
    where ts: "emitted_polys null_idx ps nvp' npolys' 0 = Some ts" "nt = 3 * int (length ts)"
    by auto
  have b: "nt \<le> INT_MAX"
    using count_polys_bound [OF assms] by (simp add: INT_MAX_def)
  have "emit_polys null_idx ps nvp' npolys' 0 (buf, 0) = Some (flat ts, nt)"
    if "length buf = nat nt" for buf :: "32 word list"
    using emit_polys_emitted [OF ts(1), of 0 buf] that ts(2) b by simp
  with ts show ?thesis
    by blast
qed

subsection \<open>The fan of one polygon\<close>

lemma emitted_poly_fan:
  assumes "valid_slots null_idx ps base nvp' k" and "1 \<le> j" and "j \<le> k"
  shows "emitted_poly null_idx ps base nvp' (int j) =
           Some (map (\<lambda>j. (ucast (ps ! nat base), ucast (ps ! nat (base + int j - 1)),
                           ucast (ps ! nat (base + int j)))) [j..<k])"
  using assms(3,2)
proof (induction rule: inc_induct)
  case base
  show ?case
  proof (cases "int k < nvp'")
    case True
    with assms(1) show ?thesis
      by (simp add: valid_slots_def emitted_poly_stop)
  next
    case False
    then show ?thesis
      by (simp add: emitted_poly_done)
  qed
next
  case (step n)
  have n: "int n < nvp'"
    using step.hyps(2) assms(1) by (simp add: valid_slots_def)
  have v: "rd ps (base + int m) = Some (ps ! nat (base + int m)) \<and>
           ps ! nat (base + int m) \<noteq> null_idx" if "m < k" for m
    using that assms(1) by (auto simp add: valid_slots_def rd_def split: if_splits)
  have pj: "rd ps (base + int n) = Some (ps ! nat (base + int n))"
    and go: "ps ! nat (base + int n) \<noteq> null_idx"
    using v [OF step.hyps(2)] by simp_all
  have p0: "rd ps base = Some (ps ! nat base)"
    using v [of 0] step.hyps(2) by simp
  have "n - 1 < k"
    using step.hyps(2) by simp
  from v [OF this] step.prems
  have pj1: "rd ps (base + (int n - 1)) = Some (ps ! nat (base + int n - 1))"
    by (simp add: of_nat_diff algebra_simps)
  have ih: "emitted_poly null_idx ps base nvp' (int n + 1) =
              Some (map (\<lambda>j. (ucast (ps ! nat base), ucast (ps ! nat (base + int j - 1)),
                              ucast (ps ! nat (base + int j)))) [Suc n..<k])"
    using step.IH by (simp add: add.commute)
  show ?case
    unfolding emitted_poly_step [OF n pj go]
    using p0 pj1 ih step.hyps(2) by (simp add: upt_conv_Cons)
qed

lemma emitted_polys_split:
  assumes "emitted_polys null_idx ps nvp' n lo = Some ts" and "lo \<le> i" and "i \<le> n"
  shows "\<exists>a b. emitted_polys null_idx ps nvp' i lo = Some a \<and>
               emitted_polys null_idx ps nvp' n i = Some b \<and> ts = a @ b"
  using assms
proof (induction null_idx ps nvp' n lo arbitrary: ts rule: emitted_polys.induct)
  case (1 null_idx ps nvp' n lo)
  show ?case
  proof (cases "lo < i")
    case False
    with "1.prems" show ?thesis
      by (simp add: emitted_polys_done)
  next
    case True
    then have lt: "lo < n"
      using "1.prems"(3) by simp
    from "1.prems"(1) obtain inv base ts1 rest
      where r: "ck (lo * nvp') = Some inv" "ck (inv * 2) = Some base"
        "emitted_poly null_idx ps base nvp' 2 = Some ts1"
        "emitted_polys null_idx ps nvp' n (lo + 1) = Some rest"
        "ts = ts1 @ rest"
      unfolding emitted_polys_step [OF lt] by (auto simp add: bind_eq_Some_conv)
    from "1.IH" [OF lt r(1) r(2) r(3) r(4)] True "1.prems"(3) obtain a b
      where ab: "emitted_polys null_idx ps nvp' i (lo + 1) = Some a"
        "emitted_polys null_idx ps nvp' n i = Some b" "rest = a @ b"
      by auto
    have "emitted_polys null_idx ps nvp' i lo = Some (ts1 @ a)"
      unfolding emitted_polys_step [OF True] using r(1,2,3) ab(1) by simp
    with ab(2,3) r(5) show ?thesis
      by simp
  qed
qed

subsection \<open>The vertex pass\<close>

lemma transform_verts_done:
  "\<not> i < rcPolyMesh.nverts pm \<Longrightarrow> transform_verts fo pm i (buf, k) = Some (buf, k)"
  by (subst transform_verts.simps) simp

lemma transform_verts_step:
  "i < rcPolyMesh.nverts pm \<Longrightarrow>
   transform_verts fo pm i (buf, k) =
     ck (i * 3) \<bind> (\<lambda>i3.
     rd (rcPolyMesh.verts pm) i3 \<bind> (\<lambda>v0.
     wr buf k (fadd fo (fst (rcPolyMesh.bmin pm))
                (fmul fo (fint fo (uint v0)) (rcPolyMesh.cs pm))) \<bind> (\<lambda>b1.
     ck (k + 1) \<bind> (\<lambda>k1.
     rd (rcPolyMesh.verts pm) (i3 + 1) \<bind> (\<lambda>v1.
     wr b1 k1 (fadd fo
                (fadd fo (fst (snd (rcPolyMesh.bmin pm)))
                   (fmul fo (fint fo (uint v1 + 1)) (rcPolyMesh.ch pm)))
                (feps fo)) \<bind> (\<lambda>b2.
     ck (k1 + 1) \<bind> (\<lambda>k2.
     rd (rcPolyMesh.verts pm) (i3 + 2) \<bind> (\<lambda>v2.
     wr b2 k2 (fadd fo (snd (snd (rcPolyMesh.bmin pm)))
                (fmul fo (fint fo (uint v2)) (rcPolyMesh.cs pm))) \<bind> (\<lambda>b3.
     ck (k2 + 1) \<bind> (\<lambda>k3.
     wr b3 k3 (fint fo 0) \<bind> (\<lambda>b4.
     ck (k3 + 1) \<bind> (\<lambda>k4.
     transform_verts fo pm (i + 1) (b4, k4)))))))))))))"
  by (subst transform_verts.simps) simp

lemma take_four_updates:
  assumes "n + 4 \<le> length xs"
  shows "take (n + 4) (xs[n := a, Suc n := b, Suc (Suc n) := c, Suc (Suc (Suc n)) := d]) =
           take n xs @ [a, b, c, d]"
proof -
  have "take (Suc (Suc (Suc (Suc n))))
          (xs[n := a, Suc n := b, Suc (Suc n) := c, Suc (Suc (Suc n)) := d]) =
        take n xs @ [a, b, c, d]"
    using assms by (simp add: take_Suc_conv_app_nth)
  then show ?thesis
    by (simp add: eval_nat_numeral)
qed

lemma drop_four_updates:
  "drop (n + 4 + l) (xs[n := a, Suc n := b, Suc (Suc n) := c, Suc (Suc (Suc n)) := d]) =
     drop (n + 4 + l) xs"
  by simp

lemma transform_verts_refine:
  assumes "transform_verts fo pm i (buf, k) = Some (buf', k')" and "0 \<le> i" and "0 \<le> k"
    and "k \<le> int (length buf)"
  shows "buf' = take (nat k) buf @
                concat (map (world_vertex fo pm) [nat i..<nat (rcPolyMesh.nverts pm)]) @
                drop (nat k + 4 * (nat (rcPolyMesh.nverts pm) - nat i)) buf
         \<and> nat k + 4 * (nat (rcPolyMesh.nverts pm) - nat i) \<le> length buf"
  using assms
proof (induction fo pm i "(buf, k)" arbitrary: buf k rule: transform_verts.induct)
  case (1 fo pm i buf k)
  show ?case
  proof (cases "i < rcPolyMesh.nverts pm")
    case False
    with "1.prems" show ?thesis
      by (simp add: transform_verts_done)
  next
    case True
    let ?vs = "rcPolyMesh.verts pm"
    from "1.prems"(1) obtain i3 v0 b1 k1 v1 b2 k2 v2 b3 k3 b4 k4
      where a: "ck (i * 3) = Some i3"
        "rd ?vs i3 = Some v0"
        "wr buf k (fadd fo (fst (rcPolyMesh.bmin pm))
                    (fmul fo (fint fo (uint v0)) (rcPolyMesh.cs pm))) = Some b1"
        "ck (k + 1) = Some k1"
        "rd ?vs (i3 + 1) = Some v1"
        "wr b1 k1 (fadd fo
                    (fadd fo (fst (snd (rcPolyMesh.bmin pm)))
                       (fmul fo (fint fo (uint v1 + 1)) (rcPolyMesh.ch pm)))
                    (feps fo)) = Some b2"
        "ck (k1 + 1) = Some k2"
        "rd ?vs (i3 + 2) = Some v2"
        "wr b2 k2 (fadd fo (snd (snd (rcPolyMesh.bmin pm)))
                    (fmul fo (fint fo (uint v2)) (rcPolyMesh.cs pm))) = Some b3"
        "ck (k2 + 1) = Some k3"
        "wr b3 k3 (fint fo 0) = Some b4"
        "ck (k3 + 1) = Some k4"
        "transform_verts fo pm (i + 1) (b4, k4) = Some (buf', k')"
      unfolding transform_verts_step [OF True] bind_eq_Some_conv by blast
    have ks: "k1 = k + 1" "k2 = k + 2" "k3 = k + 3" "k4 = k + 4" "i3 = i * 3"
      using a(1,4,7,10,12) by (simp_all add: ck_Some)
    have nk: "nat (k + 1) = Suc (nat k)" "nat (k + 2) = Suc (Suc (nat k))"
      "nat (k + 3) = Suc (Suc (Suc (nat k)))" "nat (k + 4) = nat k + 4"
      using "1.prems"(3) by simp_all
    have len: "nat k + 4 \<le> length buf"
      using a(3,6,9,11) "1.prems"(3) unfolding ks wr_Some by auto
    have ix: "nat (i * 3) = 3 * nat i" "nat (i * 3 + 1) = 3 * nat i + 1"
      "nat (i * 3 + 2) = 3 * nat i + 2"
      using "1.prems"(2) by (simp_all add: nat_mult_distrib nat_add_distrib)
    have vs: "v0 = ?vs ! (3 * nat i)" "v1 = ?vs ! (3 * nat i + 1)" "v2 = ?vs ! (3 * nat i + 2)"
      using a(2,5,8) unfolding ks rd_Some ix by simp_all
    let ?wv = "world_vertex fo pm (nat i)"
    have b4: "b4 = buf[nat k := ?wv ! 0, Suc (nat k) := ?wv ! 1, Suc (Suc (nat k)) := ?wv ! 2,
                       Suc (Suc (Suc (nat k))) := ?wv ! 3]"
      using a(3,6,9,11) unfolding ks wr_Some nk vs by (simp add: world_vertex_def)
    have wv: "[?wv ! 0, ?wv ! 1, ?wv ! 2, ?wv ! 3] = ?wv"
      by (simp add: world_vertex_def)
    have i1: "0 \<le> i + 1" "0 \<le> k4" "k4 \<le> int (length b4)"
      using "1.prems"(2,3) len by (simp_all add: ks b4)
    note ih = "1.hyps" [OF True a(1) a(2) a(3) a(4) a(5) a(6) a(7) a(8) a(9) a(10) a(11)
        a(12) a(13) i1]
    have ni: "nat (i + 1) = Suc (nat i)" "nat i < nat (rcPolyMesh.nverts pm)"
      using "1.prems"(2) True by simp_all
    have tk: "take (nat k + 4) b4 = take (nat k) buf @ ?wv"
      unfolding b4 using take_four_updates [OF len, of "?wv ! 0" "?wv ! 1" "?wv ! 2" "?wv ! 3"]
      by (simp only: wv)
    have ar: "nat k + 4 + 4 * (nat (rcPolyMesh.nverts pm) - Suc (nat i)) =
              nat k + 4 * (nat (rcPolyMesh.nverts pm) - nat i)"
      using ni(2) by arith
    have dr: "drop (nat k + 4 + 4 * (nat (rcPolyMesh.nverts pm) - Suc (nat i))) b4 =
              drop (nat k + 4 * (nat (rcPolyMesh.nverts pm) - nat i)) buf"
    proof -
      have "drop (nat k + 4 + 4 * (nat (rcPolyMesh.nverts pm) - Suc (nat i))) b4 =
            drop (nat k + 4 + 4 * (nat (rcPolyMesh.nverts pm) - Suc (nat i))) buf"
        unfolding b4 by (rule drop_four_updates)
      then show ?thesis
        by (simp only: ar)
    qed
    have lb: "length b4 = length buf"
      by (simp add: b4)
    have up: "[nat i..<nat (rcPolyMesh.nverts pm)] =
              nat i # [Suc (nat i)..<nat (rcPolyMesh.nverts pm)]"
      using ni(2) by (simp add: upt_conv_Cons)
    from ih show ?thesis
      unfolding ks nk ni(1) tk dr up lb using ar by simp
  qed
qed

lemma nth_block:
  assumes "\<And>x. length (f x) = 4" and "i < length xs"
  shows "take 4 (drop (4 * i) (concat (map f xs))) = f (xs ! i)"
  using assms(2)
proof (induction xs arbitrary: i)
  case Nil
  then show ?case
    by simp
next
  case (Cons x xs)
  show ?case
  proof (cases i)
    case 0
    then show ?thesis
      by (simp add: assms(1))
  next
    case (Suc n)
    with Cons.prems have "n < length xs"
      by simp
    from Cons.IH [OF this] Suc show ?thesis
      by (simp add: assms(1))
  qed
qed

subsection \<open>The run on the concrete mesh\<close>

lemma extract_fan_mesh:
  "bindingExtractVertsAndTriangles real_fops 0xffff extract_env_ok fan_result =
     Some (Ptr fan_extracted)"
  by code_simp

lemma deref_fan_result: "deref (poly_mesh fan_result) = Some fan_mesh"
  by (simp add: fan_result_def)

subsection \<open>The claims about bindingExtractVertsAndTriangles\<close>

text \<open>
  Claim C5. When bindingExtractVertsAndTriangles returns a mesh, and polygon \<open>i\<close> of the
  input polygon mesh has \<open>k \<ge> 3\<close> valid vertex slots, the triangle buffer is made of the
  index entries emitted for the polygons before \<open>i\<close>, then those of exactly \<open>k - 2\<close>
  triangles for polygon \<open>i\<close>, its fan \<open>(p0, p_{j-1}, p_j)\<close> for \<open>j\<close> from \<open>2\<close> to \<open>k - 1\<close>,
  then the entries emitted for the polygons after \<open>i\<close>. So every index emitted for the
  polygon is one of its vertex indices, and every triangle starts with its first vertex.
\<close>

theorem extract_fan_triangulation:
  assumes "bindingExtractVertsAndTriangles fo null_idx env bbr = Some (Ptr m)"
    and "deref (poly_mesh bbr) = Some pm"
    and "0 \<le> i" and "i < npolys pm"
    and "valid_slots null_idx (rcPolyMesh.polys pm) (i * rcPolyMesh.nvp pm * 2)
           (rcPolyMesh.nvp pm) k"
    and "3 \<le> k"
  shows "\<exists>before after.
           emitted_polys null_idx (rcPolyMesh.polys pm) (rcPolyMesh.nvp pm) i 0 = Some before \<and>
           emitted_polys null_idx (rcPolyMesh.polys pm) (rcPolyMesh.nvp pm) (npolys pm) (i + 1) =
             Some after \<and>
           triangles m =
             flat before @ flat (fan (rcPolyMesh.polys pm) (i * rcPolyMesh.nvp pm * 2) k) @
             flat after \<and>
           length (fan (rcPolyMesh.polys pm) (i * rcPolyMesh.nvp pm * 2) k) = k - 2"
proof -
  let ?ps = "rcPolyMesh.polys pm" and ?nvp = "rcPolyMesh.nvp pm"
  from extract_returns [OF assms(1)] assms(2)
  have c: "count_polys null_idx ?ps ?nvp (npolys pm) 0 0 = Some (ntris m)"
    and "\<exists>kt. emit_polys null_idx ?ps ?nvp (npolys pm) 0 (replicate (nat (ntris m)) 0, 0) =
           Some (triangles m, kt)"
    by auto
  then obtain kt
    where e: "emit_polys null_idx ?ps ?nvp (npolys pm) 0 (replicate (nat (ntris m)) 0, 0) =
                Some (triangles m, kt)"
    by blast
  from sizing_then_emission [OF c] obtain ts
    where ts: "emitted_polys null_idx ?ps ?nvp (npolys pm) 0 = Some ts"
      "\<And>buf. length buf = nat (ntris m) \<Longrightarrow>
         emit_polys null_idx ?ps ?nvp (npolys pm) 0 (buf, 0) = Some (flat ts, ntris m)"
    by blast
  from ts(2) [of "replicate (nat (ntris m)) 0"] e have t: "triangles m = flat ts"
    by simp
  from emitted_polys_split [OF ts(1) assms(3)] assms(4) obtain a b
    where ab: "emitted_polys null_idx ?ps ?nvp i 0 = Some a"
      "emitted_polys null_idx ?ps ?nvp (npolys pm) i = Some b" "ts = a @ b"
    by auto
  from ab(2) obtain inv base ts1 rest
    where r: "ck (i * ?nvp) = Some inv" "ck (inv * 2) = Some base"
      "emitted_poly null_idx ?ps base ?nvp 2 = Some ts1"
      "emitted_polys null_idx ?ps ?nvp (npolys pm) (i + 1) = Some rest"
      "b = ts1 @ rest"
    unfolding emitted_polys_step [OF assms(4)] by (auto simp add: bind_eq_Some_conv)
  have base: "base = i * ?nvp * 2"
    using r(1,2) by (simp add: ck_Some)
  from emitted_poly_fan [OF assms(5), of 2] assms(6) r(3)
  have "ts1 = fan ?ps (i * ?nvp * 2) k"
    by (simp add: base fan_def)
  with t ab(1,3) r(4,5) show ?thesis
    by (simp add: flat_append fan_def)
qed

theorem extract_fan_triangulation_witness:
  "bindingExtractVertsAndTriangles real_fops 0xffff extract_env_ok fan_result =
     Some (Ptr fan_extracted) \<and>
   deref (poly_mesh fan_result) = Some fan_mesh \<and> (0 :: int) \<le> 1 \<and> 1 < npolys fan_mesh \<and>
   valid_slots 0xffff (rcPolyMesh.polys fan_mesh) (1 * rcPolyMesh.nvp fan_mesh * 2)
     (rcPolyMesh.nvp fan_mesh) 3 \<and>
   (3 :: nat) \<le> 3 \<and>
   (\<exists>before after.
      emitted_polys 0xffff (rcPolyMesh.polys fan_mesh) (rcPolyMesh.nvp fan_mesh) 1 0 =
        Some before \<and>
      emitted_polys 0xffff (rcPolyMesh.polys fan_mesh) (rcPolyMesh.nvp fan_mesh)
        (npolys fan_mesh) (1 + 1) = Some after \<and>
      triangles fan_extracted =
        flat before @
        flat (fan (rcPolyMesh.polys fan_mesh) (1 * rcPolyMesh.nvp fan_mesh * 2) 3) @
        flat after \<and>
      length (fan (rcPolyMesh.polys fan_mesh) (1 * rcPolyMesh.nvp fan_mesh * 2) 3) = 3 - 2)"
proof -
  have i: "(0 :: int) \<le> 1" "1 < npolys fan_mesh"
    by (simp_all add: fan_mesh_def)
  have v: "valid_slots 0xffff (rcPolyMesh.polys fan_mesh) (1 * rcPolyMesh.nvp fan_mesh * 2)
             (rcPolyMesh.nvp fan_mesh) 3"
    by code_simp
  have k: "(3 :: nat) \<le> 3"
    by simp
  from extract_fan_triangulation [OF extract_fan_mesh deref_fan_result i v k]
    extract_fan_mesh deref_fan_result i v k
  show ?thesis
    by blast
qed

text \<open>
  Claim C6. Whatever the polygon mesh, when the sizing pass returns the size \<open>nt\<close>, the
  emission pass on a buffer of \<open>nt\<close> entries faults on no write (no entry lies past the
  buffer), ends with its write index \<open>k\<close> equal to \<open>nt\<close>, and leaves a buffer \<open>tbuf\<close>
  that does not depend on what the buffer held before: every entry has been written.
  The function itself, when its three allocations succeed and its vertex pass returns,
  runs the emission pass on the buffer of \<open>nt\<close> entries it allocated and returns the mesh
  with \<open>ntris = nt\<close> and this buffer: the emission pass of the function does not fault.
  This is the size and the buffer of any mesh the function returns.
\<close>

theorem extract_sizing_matches_emission:
  assumes "deref (poly_mesh bbr) = Some pm"
    and "count_polys null_idx (rcPolyMesh.polys pm) (rcPolyMesh.nvp pm) (npolys pm) 0 0 =
           Some nt"
  shows "\<exists>tbuf. length tbuf = nat nt \<and>
           (\<forall>buf. length buf = nat nt \<longrightarrow>
              emit_polys null_idx (rcPolyMesh.polys pm) (rcPolyMesh.nvp pm) (npolys pm) 0
                (buf, 0) = Some (tbuf, nt)) \<and>
           (\<forall>fo env n4 vbuf kv.
              calloc_ret_ok env \<and> calloc_verts_ok env \<and> calloc_tris_ok env \<and>
              ck (rcPolyMesh.nverts pm * 4) = Some n4 \<and> 0 \<le> n4 \<and>
              transform_verts fo pm 0 (replicate (nat n4) (fint fo 0), 0) = Some (vbuf, kv) \<longrightarrow>
              bindingExtractVertsAndTriangles fo null_idx env bbr =
                Some (Ptr \<lparr> BindingVertsAndTriangles.nverts = rcPolyMesh.nverts pm,
                            ntris = nt, verts = vbuf, triangles = tbuf \<rparr>)) \<and>
           (\<forall>fo env m. bindingExtractVertsAndTriangles fo null_idx env bbr = Some (Ptr m) \<longrightarrow>
              ntris m = nt \<and> triangles m = tbuf)"
proof -
  from sizing_then_emission [OF assms(2)] obtain ts
    where ts: "nt = 3 * int (length ts)"
      "\<And>buf. length buf = nat nt \<Longrightarrow>
         emit_polys null_idx (rcPolyMesh.polys pm) (rcPolyMesh.nvp pm) (npolys pm) 0 (buf, 0) =
           Some (flat ts, nt)"
    by blast
  have len: "length (flat ts) = nat nt"
    using ts(1) by (simp add: length_flat)
  have em: "emit_polys null_idx (rcPolyMesh.polys pm) (rcPolyMesh.nvp pm) (npolys pm) 0
              (replicate (nat nt) 0, 0) = Some (flat ts, nt)"
    by (rule ts(2)) simp
  have run: "bindingExtractVertsAndTriangles fo null_idx env bbr =
               Some (Ptr \<lparr> BindingVertsAndTriangles.nverts = rcPolyMesh.nverts pm,
                           ntris = nt, verts = vbuf, triangles = flat ts \<rparr>)"
    if "calloc_ret_ok env" "calloc_verts_ok env" "calloc_tris_ok env"
      "ck (rcPolyMesh.nverts pm * 4) = Some n4" "0 \<le> n4"
      "transform_verts fo pm 0 (replicate (nat n4) (fint fo 0), 0) = Some (vbuf, kv)"
    for fo :: "'a fops" and env n4 vbuf kv
    using that assms em by (simp add: bindingExtractVertsAndTriangles_def)
  have ret: "ntris m = nt \<and> triangles m = flat ts"
    if "bindingExtractVertsAndTriangles fo null_idx env bbr = Some (Ptr m)"
    for fo :: "'a fops" and env m
  proof -
    from extract_returns [OF that] assms(1) obtain kt
      where m: "count_polys null_idx (rcPolyMesh.polys pm) (rcPolyMesh.nvp pm) (npolys pm) 0 0 =
                  Some (ntris m)"
        "emit_polys null_idx (rcPolyMesh.polys pm) (rcPolyMesh.nvp pm) (npolys pm) 0
           (replicate (nat (ntris m)) 0, 0) = Some (triangles m, kt)"
      by auto
    from m(1) assms(2) have "ntris m = nt"
      by simp
    with m(2) em show ?thesis
      by simp
  qed
  from len ts(2) run ret show ?thesis
    by blast
qed

theorem extract_sizing_matches_emission_witness:
  "deref (poly_mesh fan_result) = Some fan_mesh \<and>
   count_polys 0xffff (rcPolyMesh.polys fan_mesh) (rcPolyMesh.nvp fan_mesh) (npolys fan_mesh)
     0 0 = Some 9 \<and>
   (\<exists>tbuf. length tbuf = nat 9 \<and>
      emit_polys 0xffff (rcPolyMesh.polys fan_mesh) (rcPolyMesh.nvp fan_mesh) (npolys fan_mesh)
        0 (replicate 9 7, 0) = Some (tbuf, 9) \<and>
      bindingExtractVertsAndTriangles real_fops 0xffff extract_env_ok fan_result =
        Some (Ptr \<lparr> BindingVertsAndTriangles.nverts = 5, ntris = 9,
                    verts = BindingVertsAndTriangles.verts fan_extracted,
                    triangles = tbuf \<rparr>) \<and>
      tbuf = [0, 1, 2, 0, 2, 3, 0, 3, 4])"
proof -
  have c: "count_polys 0xffff (rcPolyMesh.polys fan_mesh) (rcPolyMesh.nvp fan_mesh)
             (npolys fan_mesh) 0 0 = Some 9"
    by code_simp
  have env: "calloc_ret_ok extract_env_ok \<and> calloc_verts_ok extract_env_ok \<and>
             calloc_tris_ok extract_env_ok"
    by (simp add: extract_env_ok_def)
  have n4: "ck (rcPolyMesh.nverts fan_mesh * 4) = Some 20 \<and> (0 :: int) \<le> 20"
    by code_simp
  have vp: "transform_verts real_fops fan_mesh 0 (replicate (nat 20) (fint real_fops 0), 0) =
              Some (BindingVertsAndTriangles.verts fan_extracted, 20)"
    by code_simp
  have nv: "rcPolyMesh.nverts fan_mesh = 5"
    by (simp add: fan_mesh_def)
  from extract_sizing_matches_emission [OF deref_fan_result c] obtain tbuf
    where t: "length tbuf = nat 9"
      "\<forall>buf. length buf = nat 9 \<longrightarrow>
         emit_polys 0xffff (rcPolyMesh.polys fan_mesh) (rcPolyMesh.nvp fan_mesh)
           (npolys fan_mesh) 0 (buf, 0) = Some (tbuf, 9)"
      "\<forall>fo env n4 vbuf kv.
         calloc_ret_ok env \<and> calloc_verts_ok env \<and> calloc_tris_ok env \<and>
         ck (rcPolyMesh.nverts fan_mesh * 4) = Some n4 \<and> 0 \<le> n4 \<and>
         transform_verts fo fan_mesh 0 (replicate (nat n4) (fint fo 0), 0) = Some (vbuf, kv) \<longrightarrow>
         bindingExtractVertsAndTriangles fo 0xffff env fan_result =
           Some (Ptr \<lparr> BindingVertsAndTriangles.nverts = rcPolyMesh.nverts fan_mesh,
                       ntris = 9, verts = vbuf, triangles = tbuf \<rparr>)"
    by blast
  have "length (replicate 9 (7 :: 32 word)) = nat 9"
    by simp
  with t(2) have e: "emit_polys 0xffff (rcPolyMesh.polys fan_mesh) (rcPolyMesh.nvp fan_mesh)
        (npolys fan_mesh) 0 (replicate 9 7, 0) = Some (tbuf, 9)"
    by blast
  from t(3) env n4 vp
  have r: "bindingExtractVertsAndTriangles real_fops 0xffff extract_env_ok fan_result =
        Some (Ptr \<lparr> BindingVertsAndTriangles.nverts = rcPolyMesh.nverts fan_mesh, ntris = 9,
                    verts = BindingVertsAndTriangles.verts fan_extracted,
                    triangles = tbuf \<rparr>)"
    by blast
  with extract_fan_mesh have "tbuf = [0, 1, 2, 0, 2, 3, 0, 3, 4]"
    by (simp add: fan_extracted_def)
  with deref_fan_result c t(1) e r nv show ?thesis
    by simp
qed

text \<open>
  Claim C7. When bindingExtractVertsAndTriangles returns a mesh, the four floats of its
  vertex \<open>i\<close>, for every vertex \<open>i\<close> of the input polygon mesh, are
  \<open>(bmin_x + x * cs, bmin_y + (y + 1) * ch + 0.1f, bmin_z + z * cs, 0)\<close>, computed with the
  float operations in this order and with \<open>(x, y, z)\<close> the grid coordinates of the vertex;
  the vertex buffer holds four floats per vertex. This holds for every interpretation
  of the float operations.
\<close>

theorem extract_vertex_transform:
  assumes "bindingExtractVertsAndTriangles fo null_idx env bbr = Some (Ptr m)"
    and "deref (poly_mesh bbr) = Some pm"
    and "int i < rcPolyMesh.nverts pm"
  shows "take 4 (drop (4 * i) (BindingVertsAndTriangles.verts m)) = world_vertex fo pm i \<and>
         length (BindingVertsAndTriangles.verts m) = 4 * nat (rcPolyMesh.nverts pm)"
proof -
  let ?n = "nat (rcPolyMesh.nverts pm)"
  from extract_returns [OF assms(1)] assms(2) obtain n4 kv
    where r: "ck (rcPolyMesh.nverts pm * 4) = Some n4" "0 \<le> n4"
      "transform_verts fo pm 0 (replicate (nat n4) (fint fo 0), 0) =
         Some (BindingVertsAndTriangles.verts m, kv)"
    by auto
  have n4: "nat n4 = 4 * ?n"
    using r(1,2) by (simp add: ck_Some nat_mult_distrib)
  from transform_verts_refine [OF r(3)]
  have v: "BindingVertsAndTriangles.verts m = concat (map (world_vertex fo pm) [0..<?n])"
    by (simp add: n4)
  have l: "length (world_vertex fo pm x) = 4" for x
    by (simp add: world_vertex_def)
  have "i < length [0..<?n]"
    using assms(3) by simp
  from nth_block [of "world_vertex fo pm", OF l this] assms(3)
  have "take 4 (drop (4 * i) (BindingVertsAndTriangles.verts m)) = world_vertex fo pm i"
    by (simp add: v)
  moreover have "length (BindingVertsAndTriangles.verts m) = 4 * ?n"
    unfolding v by (simp add: length_concat l comp_def sum_list_triv)
  ultimately show ?thesis
    by simp
qed

theorem extract_vertex_transform_witness:
  "bindingExtractVertsAndTriangles real_fops 0xffff extract_env_ok fan_result =
     Some (Ptr fan_extracted) \<and>
   deref (poly_mesh fan_result) = Some fan_mesh \<and>
   int 4 < rcPolyMesh.nverts fan_mesh \<and>
   take 4 (drop (4 * 4) (BindingVertsAndTriangles.verts fan_extracted)) =
     world_vertex real_fops fan_mesh 4 \<and>
   world_vertex real_fops fan_mesh 4 = [5, 16 / 10, 15, 0] \<and>
   length (BindingVertsAndTriangles.verts fan_extracted) = 4 * nat (rcPolyMesh.nverts fan_mesh)"
proof -
  have i: "int 4 < rcPolyMesh.nverts fan_mesh"
    by (simp add: fan_mesh_def)
  have w: "world_vertex real_fops fan_mesh 4 = [5, 16 / 10, 15, 0]"
    by code_simp
  from extract_vertex_transform [OF extract_fan_mesh deref_fan_result i]
    extract_fan_mesh deref_fan_result i w
  show ?thesis
    by blast
qed

text \<open>
  Claim C9. When bindingExtractVertsAndTriangles returns a mesh, its field \<open>ntris\<close> is
  three times the number of triangles the emission pass emitted, the triangle buffer
  is the sequence of their index entries, and it holds exactly \<open>ntris\<close> entries.
\<close>

theorem extract_ntris_counts_indices:
  assumes "bindingExtractVertsAndTriangles fo null_idx env bbr = Some (Ptr m)"
    and "deref (poly_mesh bbr) = Some pm"
  shows "\<exists>ts. emitted_polys null_idx (rcPolyMesh.polys pm) (rcPolyMesh.nvp pm) (npolys pm) 0 =
             Some ts \<and>
           triangles m = flat ts \<and>
           ntris m = 3 * int (length ts) \<and>
           int (length (triangles m)) = ntris m"
proof -
  from extract_returns [OF assms(1)] assms(2) obtain kt
    where m: "count_polys null_idx (rcPolyMesh.polys pm) (rcPolyMesh.nvp pm) (npolys pm) 0 0 =
                Some (ntris m)"
      "emit_polys null_idx (rcPolyMesh.polys pm) (rcPolyMesh.nvp pm) (npolys pm) 0
         (replicate (nat (ntris m)) 0, 0) = Some (triangles m, kt)"
    by auto
  from sizing_then_emission [OF m(1)] obtain ts
    where ts: "emitted_polys null_idx (rcPolyMesh.polys pm) (rcPolyMesh.nvp pm) (npolys pm) 0 =
                 Some ts"
      "ntris m = 3 * int (length ts)"
      "\<And>buf. length buf = nat (ntris m) \<Longrightarrow>
         emit_polys null_idx (rcPolyMesh.polys pm) (rcPolyMesh.nvp pm) (npolys pm) 0 (buf, 0) =
           Some (flat ts, ntris m)"
    by blast
  from ts(3) [of "replicate (nat (ntris m)) 0"] m(2) have "triangles m = flat ts"
    by simp
  with ts(1,2) show ?thesis
    by (simp add: length_flat)
qed

theorem extract_ntris_counts_indices_witness:
  "bindingExtractVertsAndTriangles real_fops 0xffff extract_env_ok fan_result =
     Some (Ptr fan_extracted) \<and>
   deref (poly_mesh fan_result) = Some fan_mesh \<and>
   (\<exists>ts. emitted_polys 0xffff (rcPolyMesh.polys fan_mesh) (rcPolyMesh.nvp fan_mesh)
           (npolys fan_mesh) 0 = Some ts \<and>
         triangles fan_extracted = flat ts \<and>
         ntris fan_extracted = 3 * int (length ts) \<and>
         int (length (triangles fan_extracted)) = ntris fan_extracted)"
  using extract_ntris_counts_indices [OF extract_fan_mesh deref_fan_result]
    extract_fan_mesh deref_fan_result
  by blast

end
